theory Spec2Isabelle
  imports Main "HOL-Library.Sublist" "HOL-Library.Code_Target_Nat"
begin

section \<open>JavaScript strings\<close>

text \<open>
  A JavaScript string is a sequence of UTF-16 code units. It is modelled as a list of
  numbers, one per code unit (U+0000..U+FFFF; a larger number stands for no code unit and
  comes from no operation below). \<open>js\<close> turns a literal of the theory into such a string.
\<close>

type_synonym jsstring = "nat list"

definition cu :: "char \<Rightarrow> nat" where
  "cu c = of_char c"

definition js :: "string \<Rightarrow> jsstring" where
  "js s = map cu s"

text \<open>
  \<open>String.prototype.trim\<close> removes WhiteSpace and LineTerminator code points from both
  ends: TAB, LF, VT, FF, CR, SPACE, NO-BREAK SPACE, U+1680, U+2000..U+200A, U+2028,
  U+2029, U+202F, U+205F, U+3000 and U+FEFF.
\<close>

definition isWhiteSpace :: "nat \<Rightarrow> bool" where
  "isWhiteSpace c \<longleftrightarrow>
     c \<in> set [9, 10, 11, 12, 13, 32, 160, 0x1680, 0x2028, 0x2029, 0x202F, 0x205F, 0x3000, 0xFEFF]
     \<or> (0x2000 \<le> c \<and> c \<le> 0x200A)"

definition trim :: "jsstring \<Rightarrow> jsstring" where
  "trim s = rev (dropWhile isWhiteSpace (rev (dropWhile isWhiteSpace s)))"

text \<open>
  \<open>String.prototype.toLowerCase\<close> maps each code point of the string to its lower case
  by the Unicode case tables, which are not part of the sources. Below U+0100 the
  upper-case letters are A..Z and U+00C0..U+00DE without the multiplication sign U+00D7,
  each mapped to the code unit 32 above it, whatever stands around it. Above, two code
  units have a lower case with ASCII letters in it: KELVIN SIGN U+212A gives \<open>k\<close>, and
  U+0130 gives \<open>i\<close> followed by U+0307. Every other code unit from U+0100 on gives, in
  whatever context (a surrogate with its partner, a final sigma), one or more code units
  none of which is below U+0080; which ones is left open: \<open>caseAbove\<close> is some table with
  that property, and nothing below depends on more.
\<close>

definition toLowerLatin1 :: "nat \<Rightarrow> nat" where
  "toLowerLatin1 c =
     (if (65 \<le> c \<and> c \<le> 90) \<or> (192 \<le> c \<and> c \<le> 222 \<and> c \<noteq> 215) then c + 32 else c)"

definition caseAbove :: "jsstring \<Rightarrow> nat \<Rightarrow> jsstring \<Rightarrow> jsstring" where
  [code del]: "caseAbove =
     (SOME table. \<forall>before c after.
        table before c after \<noteq> [] \<and> (\<forall>x\<in>set (table before c after). 128 \<le> x))"

definition toLowerUnit :: "jsstring \<Rightarrow> nat \<Rightarrow> jsstring \<Rightarrow> jsstring" where
  "toLowerUnit before c after =
     (if c < 256 then [toLowerLatin1 c]
      else if c = 0x212A then [0x6B]
      else if c = 0x130 then [0x69, 0x307]
      else caseAbove before c after)"

fun toLowerFrom :: "jsstring \<Rightarrow> jsstring \<Rightarrow> jsstring" where
  "toLowerFrom before [] = []"
| "toLowerFrom before (c # after) =
     toLowerUnit before c after @ toLowerFrom (before @ [c]) after"

definition toLowerCase :: "jsstring \<Rightarrow> jsstring" where
  "toLowerCase s = toLowerFrom [] s"

text \<open>\<open>s.split(sep)\<close> for a separator of one code unit: the pieces between separators.\<close>

fun split :: "jsstring \<Rightarrow> nat \<Rightarrow> jsstring list" where
  "split [] sep = [[]]"
| "split (c # cs) sep =
     (if c = sep then [] # split cs sep
      else (case split cs sep of
              [] \<Rightarrow> [[c]]
            | p # ps \<Rightarrow> (c # p) # ps))"

text \<open>\<open>s.startsWith(v)\<close> and \<open>s.includes(w)\<close>.\<close>

definition startsWith :: "jsstring \<Rightarrow> jsstring \<Rightarrow> bool" where
  "startsWith s v \<longleftrightarrow> prefix v s"

fun includes' :: "jsstring \<Rightarrow> jsstring \<Rightarrow> bool" where
  "includes' [] w \<longleftrightarrow> w = []"
| "includes' (c # cs) w \<longleftrightarrow> prefix w (c # cs) \<or> includes' cs w"

text \<open>\<open>s.indexOf(t)\<close> for one code unit \<open>t\<close>: the first position of \<open>t\<close>, or \<open>-1\<close>.\<close>

fun indexOf :: "jsstring \<Rightarrow> nat \<Rightarrow> int" where
  "indexOf [] t = -1"
| "indexOf (c # cs) t =
     (if c = t then 0
      else (let i = indexOf cs t in if i = -1 then -1 else i + 1))"

text \<open>\<open>s.substring(start)\<close>: a negative start counts as 0, one past the end gives the
  empty string.\<close>

definition substring :: "jsstring \<Rightarrow> int \<Rightarrow> jsstring" where
  "substring s start = drop (nat start) s"

text \<open>\<open>Math.min(...xs)\<close> on a list that is not empty (the only use in \<open>Focus\<close> is guarded by
  a length test).\<close>

definition Math_min :: "int list \<Rightarrow> int" where
  "Math_min xs = fold min (tl xs) (hd xs)"


section \<open>\<open>JSON.parse\<close>\<close>

text \<open>
  \<open>JSON.parse\<close> is a built-in of the language; it is modelled by a lexer for the JSON
  tokens and a pushdown recogniser that builds the value. A number keeps its lexeme, since
  \<open>Focus\<close> only asks whether a value is a string. An object keeps its members in the
  order of the text, duplicates included; reading a property takes the last one, as the
  built-in does.
\<close>

datatype json =
    JNull
  | JBool bool
  | JNumber jsstring
  | JString jsstring
  | JArray "json list"
  | JObject "(jsstring \<times> json) list"

datatype token =
    LBrace | RBrace | LBracket | RBracket | Colon | Comma
  | TString jsstring | TNumber jsstring | TTrue | TFalse | TNull

text \<open>The grammar is that of ECMA-404. Whitespace between tokens is TAB, LF, CR and SPACE.\<close>

definition isJsonWhiteSpace :: "nat \<Rightarrow> bool" where
  "isJsonWhiteSpace c \<longleftrightarrow> c \<in> set [9, 10, 13, 32]"

definition isDigit :: "nat \<Rightarrow> bool" where
  "isDigit c \<longleftrightarrow> 48 \<le> c \<and> c \<le> 57"

definition hexDigit :: "nat \<Rightarrow> nat option" where
  "hexDigit c =
     (if 48 \<le> c \<and> c \<le> 57 then Some (c - 48)
      else if 65 \<le> c \<and> c \<le> 70 then Some (c - 55)
      else if 97 \<le> c \<and> c \<le> 102 then Some (c - 87)
      else None)"

definition hex4 :: "nat \<Rightarrow> nat \<Rightarrow> nat \<Rightarrow> nat \<Rightarrow> nat option" where
  "hex4 a b c d =
     (case (hexDigit a, hexDigit b, hexDigit c, hexDigit d) of
        (Some w, Some x, Some y, Some z) \<Rightarrow> Some (4096 * w + 256 * x + 16 * y + z)
      | _ \<Rightarrow> None)"

text \<open>The character after a backslash, other than \<open>u\<close>, and the code unit it stands for:
  quote, backslash, slash, and \<open>b\<close>, \<open>f\<close>, \<open>n\<close>, \<open>r\<close>, \<open>t\<close> for BS, FF, LF, CR, TAB.\<close>

definition escapeChar :: "nat \<Rightarrow> nat option" where
  "escapeChar e =
     (if e = cu (CHR 0x22) then Some (cu (CHR 0x22))
      else if e = cu (CHR 0x5C) then Some (cu (CHR 0x5C))
      else if e = cu (CHR ''/'') then Some (cu (CHR ''/''))
      else if e = cu (CHR ''b'') then Some 8
      else if e = cu (CHR ''f'') then Some 12
      else if e = cu (CHR ''n'') then Some 10
      else if e = cu (CHR ''r'') then Some 13
      else if e = cu (CHR ''t'') then Some 9
      else None)"

text \<open>
  \<open>lexString\<close> reads a string after its opening quote, up to the closing quote, and decodes
  the escapes; it returns the string and the rest of the text. An escape \<open>u\<close> with four
  hexadecimal digits gives the code unit of that number, a surrogate included. A control
  character below U+0020 must be escaped.
\<close>

definition consString :: "nat \<Rightarrow> (jsstring \<times> jsstring) option \<Rightarrow> (jsstring \<times> jsstring) option" where
  "consString c r = (case r of None \<Rightarrow> None | Some (s, rest) \<Rightarrow> Some (c # s, rest))"

fun lexString :: "jsstring \<Rightarrow> (jsstring \<times> jsstring) option" where
  "lexString [] = None"
| "lexString (c # cs) =
     (if c = cu (CHR 0x22) then Some ([], cs)
      else if c = cu (CHR 0x5C) then
        (case cs of
           [] \<Rightarrow> None
         | e # cs' \<Rightarrow>
             if e = cu (CHR ''u'') then
               (case cs' of
                  h1 # h2 # h3 # h4 # cs'' \<Rightarrow>
                    (case hex4 h1 h2 h3 h4 of
                       None \<Rightarrow> None
                     | Some n \<Rightarrow> consString n (lexString cs''))
                | _ \<Rightarrow> None)
             else (case escapeChar e of
                     None \<Rightarrow> None
                   | Some x \<Rightarrow> consString x (lexString cs')))
      else if c < 32 then None
      else consString c (lexString cs))"

text \<open>
  A number is an optional minus sign, an integer part (\<open>0\<close>, or a digit from 1 to 9 and
  further digits), an optional fraction (a point and at least one digit) and an optional
  exponent (\<open>e\<close> or \<open>E\<close>, an optional sign, at least one digit).
\<close>

definition lexDigits :: "jsstring \<Rightarrow> (jsstring \<times> jsstring) option" where
  "lexDigits s =
     (if takeWhile isDigit s = [] then None
      else Some (takeWhile isDigit s, dropWhile isDigit s))"

definition lexExponent :: "jsstring \<Rightarrow> (jsstring \<times> jsstring) option" where
  "lexExponent s =
     (case s of
        [] \<Rightarrow> Some ([], s)
      | e # r \<Rightarrow>
          if e = cu (CHR ''e'') \<or> e = cu (CHR ''E'') then
            (case r of
               [] \<Rightarrow> None
             | g # r' \<Rightarrow>
                 if g = cu (CHR ''+'') \<or> g = cu (CHR ''-'') then
                   (case lexDigits r' of None \<Rightarrow> None
                    | Some (ds, rest) \<Rightarrow> Some (e # g # ds, rest))
                 else
                   (case lexDigits r of None \<Rightarrow> None
                    | Some (ds, rest) \<Rightarrow> Some (e # ds, rest)))
          else Some ([], s))"

definition lexFraction :: "jsstring \<Rightarrow> (jsstring \<times> jsstring) option" where
  "lexFraction s =
     (case s of
        [] \<Rightarrow> Some ([], s)
      | p # r \<Rightarrow>
          if p = cu (CHR ''.'') then
            (case lexDigits r of None \<Rightarrow> None
             | Some (ds, rest) \<Rightarrow> Some (p # ds, rest))
          else Some ([], s))"

definition lexInteger :: "jsstring \<Rightarrow> (jsstring \<times> jsstring) option" where
  "lexInteger s =
     (case s of
        [] \<Rightarrow> None
      | d # r \<Rightarrow>
          if d = cu (CHR ''0'') then Some ([d], r)
          else if isDigit d then Some (d # takeWhile isDigit r, dropWhile isDigit r)
          else None)"

definition lexNumber :: "jsstring \<Rightarrow> (jsstring \<times> jsstring) option" where
  "lexNumber s =
     (let (sign, s1) = (case s of [] \<Rightarrow> ([], s)
                        | c # r \<Rightarrow> if c = cu (CHR ''-'') then ([c], r) else ([], s))
      in case lexInteger s1 of
           None \<Rightarrow> None
         | Some (i, s2) \<Rightarrow>
             (case lexFraction s2 of
                None \<Rightarrow> None
              | Some (f, s3) \<Rightarrow>
                  (case lexExponent s3 of
                     None \<Rightarrow> None
                   | Some (e, s4) \<Rightarrow> Some (sign @ i @ f @ e, s4))))"

text \<open>
  The lexer. In JSON two values never stand next to each other, so reading the longest
  number does not change which texts are accepted.
\<close>

definition consToken :: "token \<Rightarrow> token list option \<Rightarrow> token list option" where
  "consToken t r = map_option ((#) t) r"

function lex :: "jsstring \<Rightarrow> token list option" where
  "lex [] = Some []"
| "lex (c # cs) =
     (if isJsonWhiteSpace c then lex cs
      else if c = cu (CHR ''{'') then consToken LBrace (lex cs)
      else if c = cu (CHR ''}'') then consToken RBrace (lex cs)
      else if c = cu (CHR ''['') then consToken LBracket (lex cs)
      else if c = cu (CHR '']'') then consToken RBracket (lex cs)
      else if c = cu (CHR '':'') then consToken Colon (lex cs)
      else if c = cu (CHR '','') then consToken Comma (lex cs)
      else if c = cu (CHR 0x22) then
        (case lexString cs of
           None \<Rightarrow> None
         | Some (s, rest) \<Rightarrow> consToken (TString s) (lex rest))
      else if c = cu (CHR ''-'') \<or> isDigit c then
        (case lexNumber (c # cs) of
           None \<Rightarrow> None
         | Some (n, rest) \<Rightarrow> consToken (TNumber n) (lex rest))
      else if prefix (js ''true'') (c # cs) then consToken TTrue (lex (drop 4 (c # cs)))
      else if prefix (js ''false'') (c # cs) then consToken TFalse (lex (drop 5 (c # cs)))
      else if prefix (js ''null'') (c # cs) then consToken TNull (lex (drop 4 (c # cs)))
      else None)"
  by pat_completeness auto
termination
proof -
  have str: "length rest \<le> length cs" if "lexString cs = Some (s, rest)" for cs s rest
    using that
  proof (induction cs arbitrary: s rest rule: lexString.induct)
    case 1
    then show ?case by simp
  next
    case (2 c cs)
    then show ?case
      by (fastforce simp: consString_def split: if_splits list.splits option.splits)
  qed
  have num: "length rest < length cs" if "lexNumber cs = Some (n, rest)" for cs n rest
  proof -
    have dg: "length r \<le> length x" if "lexDigits x = Some (d, r)" for x d r
      using that length_dropWhile_le [of isDigit x]
      by (auto simp: lexDigits_def split: if_splits)
    have ex: "length r \<le> length x" if "lexExponent x = Some (d, r)" for x d r
      using that
      by (auto simp: lexExponent_def split: list.splits if_splits option.splits dest!: dg)
    have fr: "length r \<le> length x" if "lexFraction x = Some (d, r)" for x d r
      using that
      by (auto simp: lexFraction_def split: list.splits if_splits option.splits dest!: dg)
    have it: "length r < length x" if "lexInteger x = Some (d, r)" for x d r
      using that
      by (auto simp: lexInteger_def less_Suc_eq_le length_dropWhile_le
               split: list.splits if_splits)
    show ?thesis
      using that
      by (auto simp: lexNumber_def Let_def split: list.splits if_splits option.splits prod.splits
               dest!: ex fr it)
  qed
  show ?thesis
    apply (relation "measure length")
    apply simp_all
    subgoal for c cs x2 x y using str [of cs x y] by simp
    subgoal for c cs x2 x y using num [of "c # cs" x y] by simp
    done
qed

text \<open>
  The recogniser reads the tokens with a stack of the containers that are open: an array
  with the elements read so far, an object with the members read so far, or an object that
  has read a key and waits for its value (the latest element or member first). The mode
  says what may come next; \<open>PDone\<close> holds the value when the outermost one is complete.
\<close>

datatype frame =
    FArray "json list"
  | FObject "(jsstring \<times> json) list"
  | FField "(jsstring \<times> json) list" jsstring

datatype pmode = PValue | PValueOrEnd | PKeyOrEnd | PKey | PColon | PNext | PDone json

type_synonym pstate = "pmode \<times> frame list"

fun complete :: "json \<Rightarrow> frame list \<Rightarrow> pstate option" where
  "complete v [] = Some (PDone v, [])"
| "complete v (FArray acc # stk) = Some (PNext, FArray (v # acc) # stk)"
| "complete v (FField acc k # stk) = Some (PNext, FObject ((k, v) # acc) # stk)"
| "complete v (FObject acc # stk) = None"

fun startValue :: "token \<Rightarrow> frame list \<Rightarrow> pstate option" where
  "startValue LBracket stk = Some (PValueOrEnd, FArray [] # stk)"
| "startValue LBrace stk = Some (PKeyOrEnd, FObject [] # stk)"
| "startValue (TString s) stk = complete (JString s) stk"
| "startValue (TNumber n) stk = complete (JNumber n) stk"
| "startValue TTrue stk = complete (JBool True) stk"
| "startValue TFalse stk = complete (JBool False) stk"
| "startValue TNull stk = complete JNull stk"
| "startValue RBrace stk = None"
| "startValue RBracket stk = None"
| "startValue Colon stk = None"
| "startValue Comma stk = None"

fun closeArray :: "frame list \<Rightarrow> pstate option" where
  "closeArray (FArray acc # stk) = complete (JArray (rev acc)) stk"
| "closeArray stk = None"

fun closeObject :: "frame list \<Rightarrow> pstate option" where
  "closeObject (FObject acc # stk) = complete (JObject (rev acc)) stk"
| "closeObject stk = None"

fun startField :: "token \<Rightarrow> frame list \<Rightarrow> pstate option" where
  "startField (TString k) (FObject acc # stk) = Some (PColon, FField acc k # stk)"
| "startField t stk = None"

fun nextItem :: "token \<Rightarrow> frame list \<Rightarrow> pstate option" where
  "nextItem t (FArray acc # stk) =
     (if t = Comma then Some (PValue, FArray acc # stk)
      else if t = RBracket then closeArray (FArray acc # stk)
      else None)"
| "nextItem t (FObject acc # stk) =
     (if t = Comma then Some (PKey, FObject acc # stk)
      else if t = RBrace then closeObject (FObject acc # stk)
      else None)"
| "nextItem t stk = None"

fun step :: "pstate \<Rightarrow> token \<Rightarrow> pstate option" where
  "step (PValue, stk) t = startValue t stk"
| "step (PValueOrEnd, stk) t = (if t = RBracket then closeArray stk else startValue t stk)"
| "step (PKeyOrEnd, stk) t = (if t = RBrace then closeObject stk else startField t stk)"
| "step (PKey, stk) t = startField t stk"
| "step (PColon, stk) t = (if t = Colon then Some (PValue, stk) else None)"
| "step (PNext, stk) t = nextItem t stk"
| "step (PDone v, stk) t = None"

fun run :: "pstate \<Rightarrow> token list \<Rightarrow> json option" where
  "run (PDone v, []) [] = Some v"
| "run st [] = None"
| "run st (t # ts) = (case step st t of None \<Rightarrow> None | Some st' \<Rightarrow> run st' ts)"

text \<open>\<open>JSON.parse(s)\<close>: the value, or \<open>None\<close> where the built-in throws a \<open>SyntaxError\<close>.\<close>

definition JSON_parse :: "jsstring \<Rightarrow> json option" where
  "JSON_parse s = (case lex s of None \<Rightarrow> None | Some ts \<Rightarrow> run (PValue, []) ts)"


section \<open>Data model\<close>

text \<open>The interfaces of the source. The field \<open>id\<close> of a user is written \<open>id'\<close>, the name
  \<open>id\<close> being taken in HOL.\<close>

record User =
  id' :: jsstring

record Task =
  description :: jsstring

record FirstStepSuggestion =
  forTask :: Task
  suggestionText :: jsstring

text \<open>The two private \<open>Map\<close>s of the class, keyed by \<open>user.id\<close>.\<close>

record Focus =
  currentTasks :: "jsstring \<rightharpoonup> Task"
  suggestions :: "jsstring \<rightharpoonup> FirstStepSuggestion"

definition new_Focus :: Focus where
  "new_Focus = \<lparr>currentTasks = Map.empty, suggestions = Map.empty\<rparr>"

text \<open>
  Every \<open>throw\<close> of the class is one constructor. \<open>LLMError\<close> stands for whatever
  \<open>llm.executeLLM\<close> throws, \<open>JsonSyntaxError\<close> for the \<open>SyntaxError\<close> of \<open>JSON.parse\<close>
  and \<open>TypeError\<close> for a property read on \<open>null\<close>.
\<close>

datatype error =
    NoCurrentTask jsstring
  | LLMError jsstring
  | NoJsonObject
  | JsonSyntaxError
  | TypeError
  | InvalidFormat
  | NotActionable jsstring
  | TooLargeScope jsstring
  | NotSingleSentence jsstring

text \<open>The message of the thrown \<open>Error\<close>, where the class itself writes it; the text of
  a \<open>SyntaxError\<close> or \<open>TypeError\<close> is the engine's.\<close>

fun message :: "error \<Rightarrow> jsstring option" where
  "message (NoCurrentTask uid) =
     Some (js ''Cannot generate first step for user '' @ uid
           @ js '': no current task is set.'')"
| "message (LLMError m) = Some m"
| "message NoJsonObject = Some (js ''No valid JSON object found in the LLM response.'')"
| "message JsonSyntaxError = None"
| "message TypeError = None"
| "message InvalidFormat =
     Some (js ''Invalid response format: JSON must have a '' @ [cu (CHR 0x22)] @ js ''suggestion''
           @ [cu (CHR 0x22)] @ js '' field of type string.'')"
| "message (NotActionable text) =
     Some (js ''Validation Error: Suggestion is not an actionable command. Got: ''
           @ [cu (CHR 0x22)] @ text @ [cu (CHR 0x22)])"
| "message (TooLargeScope text) =
     Some (js ''Validation Error: Suggestion implies too large a scope. Got: ''
           @ [cu (CHR 0x22)] @ text @ [cu (CHR 0x22)])"
| "message (NotSingleSentence text) =
     Some (js ''Validation Error: Suggestion must be a single sentence. Got: ''
           @ [cu (CHR 0x22)] @ text @ [cu (CHR 0x22)])"


section \<open>The task of a user\<close>

text \<open>\<open>Map.set\<close> and \<open>Map.delete\<close> on the two maps; the calls to \<open>console.log\<close> are left out
  here and below, and with them \<open>displayFocus\<close>, which only prints.\<close>

definition setCurrentTask :: "User \<Rightarrow> Task \<Rightarrow> Focus \<Rightarrow> Focus" where
  "setCurrentTask user task st =
     st\<lparr>currentTasks := (currentTasks st)(id' user \<mapsto> task),
        suggestions := (suggestions st)(id' user := None)\<rparr>"

definition clearCurrentTask :: "User \<Rightarrow> Focus \<Rightarrow> Focus" where
  "clearCurrentTask user st =
     st\<lparr>currentTasks := (currentTasks st)(id' user := None),
        suggestions := (suggestions st)(id' user := None)\<rparr>"

definition getCurrentTask :: "User \<Rightarrow> Focus \<Rightarrow> Task option" where
  "getCurrentTask user st = currentTasks st (id' user)"


section \<open>Validators\<close>

text \<open>
  Each validator returns normally or throws; the thrown error is the \<open>Inl\<close> value. The two
  tables are the arrays of the source, in its order. The index \<open>[0]\<close> after \<open>split\<close> is
  always in range: \<open>split\<close> gives at least one piece.
\<close>

definition ACTION_VERBS :: "jsstring list" where
  "ACTION_VERBS = map js
     [''write'', ''create'', ''draft'', ''outline'', ''list'', ''sketch'', ''draw'', ''jot'',
      ''type'',
      ''find'', ''search'', ''look up'', ''read'', ''review'', ''identify'', ''gather'',
      ''watch'',
      ''open'', ''set up'', ''organize'', ''schedule'', ''book'', ''add'', ''download'',
      ''install'',
      ''email'', ''message'', ''call'', ''ask'', ''send'',
      ''take out'', ''move'', ''put'', ''go to'', ''get'',
      ''run'', ''test'', ''debug'', ''check'']"

definition validateIsActionable :: "jsstring \<Rightarrow> error + unit" where
  "validateIsActionable text =
     (let firstWord = toLowerCase (split (trim text) (cu (CHR '' '')) ! 0)
      in if \<not> list_ex (\<lambda>verb. startsWith firstWord verb) ACTION_VERBS
         then Inl (NotActionable text)
         else Inr ())"

definition RED_FLAG_PHRASES :: "jsstring list" where
  "RED_FLAG_PHRASES = map js
     [''complete the'', ''finish the'', ''finalize the'', ''implement the'', ''build the'',
      ''design the'', ''write the entire'', ''write the full'', ''create the whole'',
      ''the entire module'', ''the whole chapter'', ''the full draft'', ''the first draft'',
      ''the final version'', ''the complete list'',
      ''all of the'', ''every part of'', ''the rest of the'', ''organize all'',
      ''clean the entire'']"

definition validateIsShort :: "jsstring \<Rightarrow> error + unit" where
  "validateIsShort text =
     (let lowerText = toLowerCase text
      in if list_ex (\<lambda>word. includes' lowerText word) RED_FLAG_PHRASES
         then Inl (TooLargeScope text)
         else Inr ())"

definition validateIsSingleSentence :: "jsstring \<Rightarrow> error + unit" where
  "validateIsSingleSentence text =
     (let terminators = [cu (CHR ''.''), cu (CHR ''?''), cu (CHR ''!'')];
          indices = filter (\<lambda>i. i \<noteq> -1) (map (\<lambda>t. indexOf text t) terminators)
      in if length indices = 0 then Inr ()
         else (let firstTerminatorIndex = Math_min indices;
                   remainingText = trim (substring text (firstTerminatorIndex + 1))
               in if length remainingText > 0
                  then Inl (NotSingleSentence text)
                  else Inr ()))"


section \<open>The suggestion pipeline\<close>

text \<open>
  \<open>response.suggestion\<close>: on \<open>null\<close> the read throws a \<open>TypeError\<close>; on an object it gives
  the last member with that key, or \<open>undefined\<close> (\<open>None\<close>) if there is none; the other
  values have no such property.
\<close>

fun get_suggestion :: "json \<Rightarrow> error + json option" where
  "get_suggestion JNull = Inl TypeError"
| "get_suggestion (JObject members) = Inr (map_of (rev members) (js ''suggestion''))"
| "get_suggestion (JBool b) = Inr None"
| "get_suggestion (JNumber n) = Inr None"
| "get_suggestion (JString s) = Inr None"
| "get_suggestion (JArray vs) = Inr None"

text \<open>
  \<open>responseText.match(/\{[\s\S]*\}/)\<close>: the matcher tries each start position from the
  left; at a \<open>{\<close> the starred class, which takes any code unit, first takes everything and
  gives code units back until a \<open>}\<close> follows (\<open>lastClose\<close>). The result is
  \<open>jsonMatch[0]\<close>, or \<open>None\<close> for \<open>null\<close>.
\<close>

fun lastClose :: "jsstring \<Rightarrow> jsstring option" where
  "lastClose [] = None"
| "lastClose (c # cs) =
     (case lastClose cs of
        Some m \<Rightarrow> Some (c # m)
      | None \<Rightarrow> if c = cu (CHR ''}'') then Some [c] else None)"

fun regexMatch :: "jsstring \<Rightarrow> jsstring option" where
  "regexMatch [] = None"
| "regexMatch (c # cs) =
     (if c = cu (CHR ''{'') then
        (case lastClose cs of
           Some m \<Rightarrow> Some (c # m)
         | None \<Rightarrow> regexMatch cs)
      else regexMatch cs)"

text \<open>
  \<open>parseAndStoreSuggestion\<close> in three parts: the statements up to
  \<open>const suggestionText = response.suggestion\<close>, the three calls of the validators, and
  the store. Its \<open>catch\<close> block logs and throws the same error again, so an error leaves
  the method as it was thrown; the state is returned with it, as it is at that moment.
\<close>

definition extractSuggestion :: "jsstring \<Rightarrow> error + jsstring" where
  "extractSuggestion responseText =
     (case regexMatch responseText of
        None \<Rightarrow> Inl NoJsonObject
      | Some jsonMatch \<Rightarrow>
          (case JSON_parse jsonMatch of
             None \<Rightarrow> Inl JsonSyntaxError
           | Some response \<Rightarrow>
               (case get_suggestion response of
                  Inl e \<Rightarrow> Inl e
                | Inr (Some (JString suggestionText')) \<Rightarrow> Inr suggestionText'
                | Inr _ \<Rightarrow> Inl InvalidFormat)))"

definition runValidators :: "jsstring \<Rightarrow> error + unit" where
  "runValidators suggestionText' =
     (case validateIsActionable suggestionText' of
        Inl e \<Rightarrow> Inl e
      | Inr _ \<Rightarrow>
          (case validateIsShort suggestionText' of
             Inl e \<Rightarrow> Inl e
           | Inr _ \<Rightarrow> validateIsSingleSentence suggestionText'))"

definition parseAndStoreSuggestion ::
    "jsstring \<Rightarrow> User \<Rightarrow> Task \<Rightarrow> Focus \<Rightarrow> (error + unit) \<times> Focus" where
  "parseAndStoreSuggestion responseText user forTask' st =
     (case extractSuggestion responseText of
        Inl e \<Rightarrow> (Inl e, st)
      | Inr suggestionText' \<Rightarrow>
          (case runValidators suggestionText' of
             Inl e \<Rightarrow> (Inl e, st)
           | Inr _ \<Rightarrow>
               (let suggestion = \<lparr>forTask = forTask', suggestionText = suggestionText'\<rparr>
                in (Inr (), st\<lparr>suggestions := (suggestions st)(id' user \<mapsto> suggestion)\<rparr>))))"

text \<open>The template literal of \<open>createFirstStepPrompt\<close>, line by line; each line of the
  source that is not empty starts with twelve spaces.\<close>

definition createFirstStepPrompt :: "Task \<Rightarrow> jsstring" where
  \<open>createFirstStepPrompt task =
     concat (map (\<lambda>line. [10] @ replicate 12 (cu (CHR '' '')) @ line)
       [js ''You are a productivity AI. Your only goal is to defeat procrastination.'',
        js ''Your goal is to provide a single, concrete, physical or digital action that a person can complete in five minutes or less to get started on their task.''])
     @ [10]
     @ concat (map (\<lambda>line. [10] @ replicate 12 (cu (CHR '' '')) @ line)
       [js ''CRITICAL RULES:'',
        js ''1. The action must be a single sentence.'',
        js ''2. The action must be a direct concrete command (e.g., "Open...", "Write...", "List..."). Do not suggest mental actions like "Think about...". Give something that is easily executable given your instructions.'',
        js ''3. Your entire output MUST be ONLY a valid JSON object. Do not add any other text, explanations, or markdown formatting like ```json.'',
        js ''4. Be accurate - suggest ONLY actions that correspond to starting the task and are helpful.'',
        js ''5. Do not make unwarranted assumptions about the user'' @ [cu (CHR 0x27)]
          @ js ''s context, tools, and workflow.''])
     @ [10]
     @ concat (map (\<lambda>line. [10] @ replicate 12 (cu (CHR '' '')) @ line)
       [js ''TASK: "'' @ description task @ js ''"''])
     @ [10]
     @ concat (map (\<lambda>line. [10] @ replicate 12 (cu (CHR '' '')) @ line)
       [js ''JSON OUTPUT:'',
        js ''{'',
        js ''"suggestion": "The short, actionable command."'',
        js ''}''])\<close>

text \<open>
  The module \<open>gemini-llm\<close> is not among the sources. The class uses one method of the
  client, \<open>executeLLM(prompt)\<close>, which returns a text or throws: the client is a function
  from the prompt to the message of the thrown error (\<open>Inl\<close>) or the text (\<open>Inr\<close>).
\<close>

type_synonym GeminiLLM = "jsstring \<Rightarrow> jsstring + jsstring"

text \<open>
  \<open>generateFirstStep\<close> suspends at \<open>await llm.executeLLM(prompt)\<close>. \<open>startFirstStep\<close> is
  what it does before: it reads the current task of the user and throws if there is none;
  the task it has read stays with the call. \<open>finishFirstStep\<close> is what it does when the
  client has answered, on the state the class has by then: it throws what the client threw,
  or goes on to \<open>parseAndStoreSuggestion\<close> with the text and the task read at the start.
  Its \<open>catch\<close> block logs and throws the same error again.
\<close>

definition startFirstStep :: "User \<Rightarrow> Focus \<Rightarrow> error + Task" where
  "startFirstStep user st =
     (case getCurrentTask user st of
        None \<Rightarrow> Inl (NoCurrentTask (id' user))
      | Some currentTask \<Rightarrow> Inr currentTask)"

definition finishFirstStep ::
    "jsstring + jsstring \<Rightarrow> User \<Rightarrow> Task \<Rightarrow> Focus \<Rightarrow> (error + unit) \<times> Focus" where
  "finishFirstStep answer user currentTask st =
     (case answer of
        Inl m \<Rightarrow> (Inl (LLMError m), st)
      | Inr text' \<Rightarrow> parseAndStoreSuggestion text' user currentTask st)"

text \<open>A call of \<open>generateFirstStep\<close> that is awaited before anything else is called on the
  object: the state at the end of the \<open>await\<close> is the state at its start.\<close>

definition generateFirstStep :: "User \<Rightarrow> GeminiLLM \<Rightarrow> Focus \<Rightarrow> (error + unit) \<times> Focus" where
  "generateFirstStep user llm st =
     (case startFirstStep user st of
        Inl e \<Rightarrow> (Inl e, st)
      | Inr currentTask \<Rightarrow>
          finishFirstStep (llm (createFirstStepPrompt currentTask)) user currentTask st)"

text \<open>
  The states of a \<open>Focus\<close>, each with the calls of \<open>generateFirstStep\<close> that are suspended
  at their \<open>await\<close> (the user and the task each has read). Any public method may be called
  while calls are suspended; a suspended call finishes when its client answers, with
  whatever answer. A call of \<open>generateFirstStep\<close> that throws at its start changes nothing.
\<close>

inductive reachable :: "Focus \<Rightarrow> (User \<times> Task) list \<Rightarrow> bool" where
  initial: "reachable new_Focus []"
| setTask: "reachable st pending \<Longrightarrow> reachable (setCurrentTask user task st) pending"
| clearTask: "reachable st pending \<Longrightarrow> reachable (clearCurrentTask user st) pending"
| start: "reachable st pending \<Longrightarrow> startFirstStep user st = Inr currentTask
          \<Longrightarrow> reachable st ((user, currentTask) # pending)"
| finish: "reachable st pending \<Longrightarrow> (user, currentTask) \<in> set pending
          \<Longrightarrow> reachable (snd (finishFirstStep answer user currentTask st))
                (remove1 (user, currentTask) pending)"

text \<open>
  The states reached when no task of a user is set or cleared while a call of
  \<open>generateFirstStep\<close> for that user is suspended: the caller awaits the call before it acts
  again on the state of the same user, and calls for other users go on as they like. The
  test file works in this way.
\<close>

inductive orderly :: "Focus \<Rightarrow> (User \<times> Task) list \<Rightarrow> bool" where
  initial: "orderly new_Focus []"
| setTask: "orderly st pending \<Longrightarrow> id' user \<notin> set (map (id' \<circ> fst) pending)
            \<Longrightarrow> orderly (setCurrentTask user task st) pending"
| clearTask: "orderly st pending \<Longrightarrow> id' user \<notin> set (map (id' \<circ> fst) pending)
              \<Longrightarrow> orderly (clearCurrentTask user st) pending"
| start: "orderly st pending \<Longrightarrow> startFirstStep user st = Inr currentTask
          \<Longrightarrow> orderly st ((user, currentTask) # pending)"
| finish: "orderly st pending \<Longrightarrow> (user, currentTask) \<in> set pending
           \<Longrightarrow> orderly (snd (finishFirstStep answer user currentTask st))
                 (remove1 (user, currentTask) pending)"

text \<open>Two clients for the examples: one answers every prompt with the same text, one
  throws on every prompt.\<close>

definition replyWith :: "jsstring \<Rightarrow> GeminiLLM" where
  "replyWith response prompt = Inr response"

definition failWith :: "jsstring \<Rightarrow> GeminiLLM" where
  "failWith reason prompt = Inl reason"

text \<open>The user and two of the tasks of the test file; the state of its second test case
  after the answer reported for it; and the state after a call for the vague task whose
  answer arrives when the technical task has become the current one.\<close>

definition user1 :: User where
  "user1 = \<lparr>id' = js ''user123''\<rparr>"

definition vagueTask :: Task where
  "vagueTask = \<lparr>description = js ''Get organized for the week''\<rparr>"

definition technicalTask :: Task where
  "technicalTask =
     \<lparr>description = js ''Refactor the user authentication module to improve performance''\<rparr>"

definition focusWithSuggestion :: Focus where
  \<open>focusWithSuggestion =
     snd (generateFirstStep user1
            (replyWith (js ''{"suggestion": "List three main tasks you need to accomplish this week."}''))
            (setCurrentTask user1 vagueTask new_Focus))\<close>

definition focusAfterOverlap :: Focus where
  \<open>focusAfterOverlap =
     snd (finishFirstStep (Inr (js ''{"suggestion": "Open the file."}'')) user1 vagueTask
            (setCurrentTask user1 technicalTask (setCurrentTask user1 vagueTask new_Focus)))\<close>


section \<open>The notions of the specification\<close>

text \<open>
  The specification speaks of the first whitespace-delimited token of the trimmed text, of
  a red-flag phrase occurring as a substring, of the text after the first sentence
  terminator, and of the span from the first \<open>{\<close> through the last \<open>}\<close>. These are written
  down here after its words, to be compared with what the methods compute.
\<close>

definition first_token :: "jsstring \<Rightarrow> jsstring" where
  "first_token s = takeWhile (\<lambda>c. \<not> isWhiteSpace c) (trim s)"

definition matches_action_verb :: "jsstring \<Rightarrow> bool" where
  "matches_action_verb s \<longleftrightarrow>
     (\<exists>verb\<in>set ACTION_VERBS. prefix verb (toLowerCase (first_token s)))"

definition contains_red_flag :: "jsstring \<Rightarrow> bool" where
  "contains_red_flag s \<longleftrightarrow> (\<exists>w\<in>set RED_FLAG_PHRASES. sublist w (toLowerCase s))"

definition isTerminator :: "nat \<Rightarrow> bool" where
  "isTerminator c \<longleftrightarrow> c = cu (CHR ''.'') \<or> c = cu (CHR ''?'') \<or> c = cu (CHR ''!'')"

definition after_first_terminator :: "jsstring \<Rightarrow> jsstring" where
  "after_first_terminator s = drop 1 (dropWhile (\<lambda>c. \<not> isTerminator c) s)"

definition greedy_span :: "jsstring \<Rightarrow> jsstring option" where
  "greedy_span s =
     (let from_open = dropWhile (\<lambda>c. c \<noteq> cu (CHR ''{'')) s;
          upto_close = rev (dropWhile (\<lambda>c. c \<noteq> cu (CHR ''}'')) (rev from_open))
      in if upto_close = [] then None else Some upto_close)"

text \<open>
  A string written as a JSON string, in the way of \<open>JSON.stringify\<close>: between quotes, with
  the quote, the backslash and the control characters below U+0020 escaped (the short
  escape where there is one, \<open>u00XX\<close> otherwise) and every other code unit as it is.
\<close>

definition hexChar :: "nat \<Rightarrow> nat" where
  "hexChar d = (if d < 10 then 48 + d else 87 + d)"

definition quoteUnit :: "nat \<Rightarrow> jsstring" where
  "quoteUnit c =
     (if c = cu (CHR 0x22) then [cu (CHR 0x5C), cu (CHR 0x22)]
      else if c = cu (CHR 0x5C) then [cu (CHR 0x5C), cu (CHR 0x5C)]
      else if c = 8 then [cu (CHR 0x5C), cu (CHR ''b'')]
      else if c = 12 then [cu (CHR 0x5C), cu (CHR ''f'')]
      else if c = 10 then [cu (CHR 0x5C), cu (CHR ''n'')]
      else if c = 13 then [cu (CHR 0x5C), cu (CHR ''r'')]
      else if c = 9 then [cu (CHR 0x5C), cu (CHR ''t'')]
      else if c < 32 then
        [cu (CHR 0x5C), cu (CHR ''u''), cu (CHR ''0''), cu (CHR ''0''),
         hexChar (c div 16), hexChar (c mod 16)]
      else [c])"

definition quoteJSON :: "jsstring \<Rightarrow> jsstring" where
  "quoteJSON s = cu (CHR 0x22) # concat (map quoteUnit s) @ [cu (CHR 0x22)]"

text \<open>
  An invariant of the recogniser, for the proofs below: the frame at the bottom of the
  stack belongs to an object, and the state reached when that object closes.
\<close>

fun bottomObject :: "frame list \<Rightarrow> bool" where
  "bottomObject [] \<longleftrightarrow> False"
| "bottomObject [FArray acc] \<longleftrightarrow> False"
| "bottomObject [FObject acc] \<longleftrightarrow> True"
| "bottomObject [FField acc k] \<longleftrightarrow> True"
| "bottomObject (f # g # stk) \<longleftrightarrow> bottomObject (g # stk)"

definition objectDone :: "pstate \<Rightarrow> bool" where
  "objectDone st \<longleftrightarrow> (\<exists>members. st = (PDone (JObject members), []))"

text \<open>
  For the proofs about the lower case: whether a word of ASCII letters is a prefix of the
  lower case of a string, decided code unit by code unit without the case table.
\<close>

fun asciiMatch :: "jsstring \<Rightarrow> jsstring \<Rightarrow> bool" where
  "asciiMatch [] s \<longleftrightarrow> True"
| "asciiMatch (a # v) [] \<longleftrightarrow> False"
| "asciiMatch (a # v) (c # s) \<longleftrightarrow>
     (if c < 256 then a = toLowerLatin1 c \<and> asciiMatch v s
      else if c = 0x212A then a = 0x6B \<and> asciiMatch v s
      else if c = 0x130 then a = 0x69 \<and> v = []
      else False)"

text \<open>The same for a word that stands anywhere in the lower case of a string.\<close>

fun asciiIncludes :: "jsstring \<Rightarrow> jsstring \<Rightarrow> bool" where
  "asciiIncludes w [] \<longleftrightarrow> w = []"
| "asciiIncludes w (c # s) \<longleftrightarrow> asciiMatch w (c # s) \<or> asciiIncludes w s"


section \<open>Facts about the string methods\<close>

lemma split_not_Nil: "split s sep \<noteq> []"
  by (induction s) (auto split: list.splits)

lemma split_first: "split s sep ! 0 = takeWhile (\<lambda>c. c \<noteq> sep) s"
proof (induction s)
  case Nil
  show ?case by simp
next
  case (Cons c cs)
  then show ?case using split_not_Nil [of cs sep]
    by (cases "split cs sep") auto
qed

lemma includes'_iff_sublist: "includes' s w \<longleftrightarrow> sublist w s"
  by (induction s) (simp_all add: sublist_Cons_right)

lemma isWhiteSpace_space: "isWhiteSpace (cu (CHR '' ''))"
  by (simp add: isWhiteSpace_def cu_def)

lemma dropWhile_all_iff: "(\<forall>x\<in>set (dropWhile P xs). P x) \<longleftrightarrow> (\<forall>x\<in>set xs. P x)"
  by (induction xs) auto

lemma trim_eq_Nil: "trim s = [] \<longleftrightarrow> (\<forall>c\<in>set s. isWhiteSpace c)"
  by (simp add: trim_def dropWhile_eq_Nil_conv dropWhile_all_iff)

lemma indexOf_absent: "t \<notin> set s \<Longrightarrow> indexOf s t = -1"
  by (induction s) auto

lemma indexOf_present:
  "t \<in> set s \<Longrightarrow> indexOf s t = int (length (takeWhile (\<lambda>c. c \<noteq> t) s))"
  by (induction s) (auto simp: Let_def indexOf_absent)

lemma indexOf_eq: "indexOf s t = (if t \<in> set s then int (length (takeWhile (\<lambda>c. c \<noteq> t) s)) else -1)"
  by (simp add: indexOf_absent indexOf_present)

text \<open>The case table above U+00FF gives, for every code unit and context, at least one
  code unit and none below U+0080.\<close>

lemma caseAbove_exists:
  "\<exists>table :: jsstring \<Rightarrow> nat \<Rightarrow> jsstring \<Rightarrow> jsstring. \<forall>before c after.
     table before c after \<noteq> [] \<and> (\<forall>x\<in>set (table before c after). 128 \<le> x)"
  by (rule exI [where x = "\<lambda>before c after. [128]"]) simp

lemma caseAbove_not_Nil: "caseAbove before c after \<noteq> []"
  unfolding caseAbove_def using someI_ex [OF caseAbove_exists] by blast

lemma caseAbove_high: "x \<in> set (caseAbove before c after) \<Longrightarrow> 128 \<le> x"
  unfolding caseAbove_def using someI_ex [OF caseAbove_exists] by blast

lemma toLowerLatin1_ascii: "toLowerLatin1 c < 128 \<Longrightarrow> c < 128"
  by (auto simp: toLowerLatin1_def split: if_splits)

lemma toLowerLatin1_whitespace: "isWhiteSpace (toLowerLatin1 c) \<longleftrightarrow> isWhiteSpace c"
  by (auto simp: toLowerLatin1_def isWhiteSpace_def)

lemma toLowerLatin1_fix_whitespace: "isWhiteSpace c \<Longrightarrow> toLowerLatin1 c = c"
  by (auto simp: toLowerLatin1_def isWhiteSpace_def)

text \<open>An ASCII word is a prefix of the lower case of a string exactly when \<open>asciiMatch\<close>
  says so, whatever stands before the string.\<close>

lemma prefix_toLowerFrom:
  assumes "\<forall>a\<in>set v. a < 128"
  shows "prefix v (toLowerFrom before s) \<longleftrightarrow> asciiMatch v s"
  using assms
proof (induction s arbitrary: v before)
  case Nil
  then show ?case by (cases v) auto
next
  case (Cons c s)
  show ?case
  proof (cases v)
    case Nil
    then show ?thesis by simp
  next
    case v: (Cons a v')
    with Cons.prems have a: "a < 128" and v': "\<forall>a\<in>set v'. a < 128" by auto
    note IH = Cons.IH [OF v', of "before @ [c]"]
    consider (low) "c < 256" | (kelvin) "c = 0x212A" | (idot) "c = 0x130"
      | (other) "\<not> c < 256" "c \<noteq> 0x212A" "c \<noteq> 0x130"
      by blast
    then show ?thesis
    proof cases
      case low
      with v IH show ?thesis by (simp add: toLowerUnit_def)
    next
      case kelvin
      with v IH show ?thesis by (simp add: toLowerUnit_def)
    next
      case idot
      have "\<not> prefix v' (0x307 # toLowerFrom (before @ [c]) s)" if "v' \<noteq> []"
      proof
        assume "prefix v' (0x307 # toLowerFrom (before @ [c]) s)"
        with that obtain w where "v' = 0x307 # w" by (cases v') auto
        with v' show False by simp
      qed
      with v idot show ?thesis by (auto simp: toLowerUnit_def)
    next
      case other
      obtain x xs where img: "caseAbove before c s = x # xs"
        using caseAbove_not_Nil [of before c s] by (cases "caseAbove before c s") auto
      then have "128 \<le> x" using caseAbove_high [of x before c s] by simp
      with a have "a \<noteq> x" by simp
      with v other img show ?thesis by (simp add: toLowerUnit_def)
    qed
  qed
qed

lemma prefix_toLowerCase:
  "\<forall>a\<in>set v. a < 128 \<Longrightarrow> prefix v (toLowerCase s) \<longleftrightarrow> asciiMatch v s"
  by (simp add: toLowerCase_def prefix_toLowerFrom)

lemma asciiMatch_whitespace:
  "asciiMatch v s \<Longrightarrow> a \<in> set v \<Longrightarrow> isWhiteSpace a \<Longrightarrow> \<exists>c\<in>set s. isWhiteSpace c"
proof (induction v s rule: asciiMatch.induct)
  case (1 s)
  then show ?case by simp
next
  case (2 a' v)
  then show ?case by simp
next
  case (3 a' v c s)
  then show ?case
    by (auto simp: toLowerLatin1_whitespace split: if_splits)
       (auto simp: isWhiteSpace_def)
qed

lemma asciiMatch_first_token:
  assumes "\<forall>a\<in>set v. \<not> isWhiteSpace a"
  shows "asciiMatch v (takeWhile (\<lambda>c. c \<noteq> cu (CHR '' '')) t)
         \<longleftrightarrow> asciiMatch v (takeWhile (\<lambda>c. \<not> isWhiteSpace c) t)"
  using assms
proof (induction t arbitrary: v)
  case Nil
  show ?case by simp
next
  case (Cons c t)
  show ?case
  proof (cases v)
    case Nil
    then show ?thesis by simp
  next
    case v: (Cons a v')
    with Cons.prems have a: "\<not> isWhiteSpace a" and v': "\<forall>a\<in>set v'. \<not> isWhiteSpace a"
      by auto
    show ?thesis
    proof (cases "isWhiteSpace c")
      case False
      then have "c \<noteq> cu (CHR '' '')" using isWhiteSpace_space by auto
      with False v Cons.IH [OF v'] show ?thesis by simp
    next
      case True
      then have l: "toLowerLatin1 c = c" by (rule toLowerLatin1_fix_whitespace)
      from True have ns: "c \<noteq> 0x212A" "c \<noteq> 0x130" by (auto simp: isWhiteSpace_def)
      from True a have "a \<noteq> c" by auto
      with True v l ns show ?thesis by simp
    qed
  qed
qed

lemma toLowerFrom_space:
  "cu (CHR '' '') \<in> set (toLowerFrom before s) \<Longrightarrow> cu (CHR '' '') \<in> set s"
proof (induction s arbitrary: before)
  case Nil
  then show ?case by simp
next
  case (Cons c s)
  from Cons.prems have "cu (CHR '' '') \<in> set (toLowerUnit before c s)
      \<or> cu (CHR '' '') \<in> set (toLowerFrom (before @ [c]) s)"
    by simp
  then show ?case
  proof
    assume "cu (CHR '' '') \<in> set (toLowerUnit before c s)"
    then show ?thesis
      using caseAbove_high [of "cu (CHR '' '')" before c s]
      by (auto simp: toLowerUnit_def toLowerLatin1_def cu_def split: if_splits)
  next
    assume "cu (CHR '' '') \<in> set (toLowerFrom (before @ [c]) s)"
    then show ?thesis using Cons.IH by simp
  qed
qed


text \<open>An ASCII word stands in the lower case of a string exactly when \<open>asciiIncludes\<close>
  says so.\<close>

lemma sublist_high_block:
  assumes "\<forall>x\<in>set H. 128 \<le> x" and "a < (128::nat)"
  shows "sublist (a # v) (H @ R) \<longleftrightarrow> sublist (a # v) R"
  using assms by (induction H) (auto simp: sublist_Cons_right)

lemma sublist_toLowerUnit:
  assumes "a < 128"
  shows "sublist (a # v) (toLowerUnit before c after @ R)
         \<longleftrightarrow> prefix (a # v) (toLowerUnit before c after @ R) \<or> sublist (a # v) R"
proof (cases "c < 256 \<or> c = 0x212A")
  case True
  then show ?thesis by (auto simp: toLowerUnit_def sublist_Cons_right)
next
  case False
  show ?thesis
  proof (cases "c = 0x130")
    case True
    have "sublist (a # v) ([0x307] @ R) \<longleftrightarrow> sublist (a # v) R"
      using assms by (intro sublist_high_block) simp_all
    with True show ?thesis by (simp add: toLowerUnit_def sublist_Cons_right)
  next
    case c: False
    have "sublist (a # v) (caseAbove before c after @ R) \<longleftrightarrow> sublist (a # v) R"
      using assms caseAbove_high by (intro sublist_high_block) auto
    moreover have "\<not> prefix (a # v) (caseAbove before c after @ R)"
    proof
      assume p: "prefix (a # v) (caseAbove before c after @ R)"
      obtain h H where h: "caseAbove before c after = h # H"
        using caseAbove_not_Nil [of before c after] by (cases "caseAbove before c after") auto
      with p have "a = h" by simp
      moreover have "128 \<le> h" using caseAbove_high [of h before c after] h by simp
      ultimately show False using assms by simp
    qed
    ultimately show ?thesis using False c by (simp add: toLowerUnit_def)
  qed
qed

lemma sublist_toLowerFrom:
  assumes "\<forall>a\<in>set w. a < 128"
  shows "sublist w (toLowerFrom before s) \<longleftrightarrow> asciiIncludes w s"
proof (cases w)
  case Nil
  then show ?thesis by (cases s) simp_all
next
  case (Cons a v)
  with assms have a: "a < 128" by simp
  show ?thesis
  proof (induction s arbitrary: before)
    case Nil
    show ?case by (simp add: Cons)
  next
    case (Cons c s)
    have "sublist w (toLowerFrom before (c # s))
          \<longleftrightarrow> prefix w (toLowerFrom before (c # s)) \<or> sublist w (toLowerFrom (before @ [c]) s)"
      unfolding \<open>w = a # v\<close> toLowerFrom.simps by (rule sublist_toLowerUnit [OF a])
    then show ?case
      by (simp only: prefix_toLowerFrom [OF assms] Cons.IH asciiIncludes.simps)
  qed
qed

lemma sublist_toLowerCase:
  "\<forall>a\<in>set w. a < 128 \<Longrightarrow> sublist w (toLowerCase s) \<longleftrightarrow> asciiIncludes w s"
  by (simp add: toLowerCase_def sublist_toLowerFrom)

section \<open>The regular expression\<close>

lemma lastClose_eq:
  "lastClose s =
     (let u = rev (dropWhile (\<lambda>c. c \<noteq> cu (CHR ''}'')) (rev s))
      in if u = [] then None else Some u)"
proof (induction s)
  case Nil
  show ?case by simp
next
  case (Cons c cs)
  show ?case
  proof (cases "cu (CHR ''}'') \<in> set cs")
    case True
    then have ne: "dropWhile (\<lambda>c. c \<noteq> cu (CHR ''}'')) (rev cs) \<noteq> []"
      by (auto simp: dropWhile_eq_Nil_conv)
    then have "dropWhile (\<lambda>c. c \<noteq> cu (CHR ''}'')) (rev cs @ [c])
               = dropWhile (\<lambda>c. c \<noteq> cu (CHR ''}'')) (rev cs) @ [c]"
      using True by (intro dropWhile_append1 [where x = "cu (CHR ''}'')"]) auto
    with Cons.IH ne show ?thesis by (simp add: Let_def)
  next
    case False
    then have all: "\<forall>x\<in>set (rev cs). x \<noteq> cu (CHR ''}'')" by auto
    then have e: "dropWhile (\<lambda>c. c \<noteq> cu (CHR ''}'')) (rev cs) = []"
      by (simp add: dropWhile_eq_Nil_conv)
    have "dropWhile (\<lambda>c. c \<noteq> cu (CHR ''}'')) (rev cs @ [c]) = dropWhile (\<lambda>c. c \<noteq> cu (CHR ''}'')) [c]"
      using all by (intro dropWhile_append2) auto
    with Cons.IH e show ?thesis by (simp add: Let_def)
  qed
qed

lemma lastClose_None_iff: "lastClose s = None \<longleftrightarrow> cu (CHR ''}'') \<notin> set s"
  by (auto simp: lastClose_eq Let_def dropWhile_eq_Nil_conv)

lemma lastClose_no_close: "cu (CHR ''}'') \<notin> set s \<Longrightarrow> lastClose s = None"
  by (simp add: lastClose_None_iff)

lemma regexMatch_no_close: "cu (CHR ''}'') \<notin> set s \<Longrightarrow> regexMatch s = None"
  by (induction s) (simp_all add: lastClose_no_close)

lemma lastClose_None_no_match: "lastClose s = None \<Longrightarrow> regexMatch s = None"
  by (simp add: lastClose_None_iff regexMatch_no_close)

lemma regexMatch_lastClose: "regexMatch s = lastClose (dropWhile (\<lambda>c. c \<noteq> cu (CHR ''{'')) s)"
  by (induction s) (auto simp: lastClose_None_no_match cu_def split: option.splits)

lemma greedy_span_lastClose: "greedy_span s = lastClose (dropWhile (\<lambda>c. c \<noteq> cu (CHR ''{'')) s)"
  unfolding greedy_span_def lastClose_eq Let_def ..

lemma regexMatch_eq_greedy_span: "regexMatch s = greedy_span s"
  by (simp only: regexMatch_lastClose greedy_span_lastClose)

lemma regexMatch_starts_with_brace:
  "regexMatch s = Some m \<Longrightarrow> \<exists>rest. m = cu (CHR ''{'') # rest"
  by (induction s) (auto split: if_splits option.splits)

lemma lastClose_append:
  "cu (CHR ''}'') \<notin> set post \<Longrightarrow> lastClose (body @ cu (CHR ''}'') # post) = Some (body @ [cu (CHR ''}'')])"
  by (induction body) (simp_all add: lastClose_no_close)

lemma regexMatch_noise:
  assumes "cu (CHR ''{'') \<notin> set pre" and "cu (CHR ''}'') \<notin> set post"
  shows "regexMatch (pre @ cu (CHR ''{'') # body @ cu (CHR ''}'') # post) = Some (cu (CHR ''{'') # body @ [cu (CHR ''}'')])"
  using assms by (induction pre) (auto simp: lastClose_append)


section \<open>A text that opens with a brace parses to an object\<close>

lemma complete_bottomObject:
  "bottomObject stk \<Longrightarrow> complete v stk = Some st \<Longrightarrow> bottomObject (snd st)"
  by (induction stk rule: bottomObject.induct) (auto elim!: complete.elims)

lemma bottomObject_Cons:
  "bottomObject (f # stk) \<longleftrightarrow>
     (if stk = [] then (case f of FArray acc \<Rightarrow> False | _ \<Rightarrow> True) else bottomObject stk)"
  by (cases stk; cases f) simp_all

lemma closeArray_bottomObject:
  assumes "bottomObject stk" and "closeArray stk = Some st"
  shows "bottomObject (snd st)"
proof -
  from assms(2) obtain acc stk' where stk: "stk = FArray acc # stk'"
    and c: "complete (JArray (rev acc)) stk' = Some st"
    by (auto elim!: closeArray.elims)
  from assms(1) stk have "bottomObject stk'"
    by (simp add: bottomObject_Cons split: if_splits)
  then show ?thesis using c by (rule complete_bottomObject)
qed

lemma closeObject_bottomObject:
  assumes "bottomObject stk" and "closeObject stk = Some st"
  shows "bottomObject (snd st) \<or> objectDone st"
proof -
  from assms(2) obtain acc stk' where stk: "stk = FObject acc # stk'"
    and c: "complete (JObject (rev acc)) stk' = Some st"
    by (auto elim!: closeObject.elims)
  show ?thesis
  proof (cases "stk' = []")
    case True
    with c show ?thesis by (auto simp: objectDone_def)
  next
    case False
    with assms(1) stk have "bottomObject stk'" by (simp add: bottomObject_Cons)
    with c show ?thesis by (auto dest: complete_bottomObject)
  qed
qed

lemma startValue_bottomObject:
  assumes "bottomObject stk" and "startValue t stk = Some st"
  shows "bottomObject (snd st)"
  using assms
  by (cases t) (auto simp: bottomObject_Cons dest: complete_bottomObject)

lemma startField_bottomObject:
  assumes "bottomObject stk" and "startField t stk = Some st"
  shows "bottomObject (snd st)"
  using assms
  by (auto simp: bottomObject_Cons elim!: startField.elims split: if_splits)

lemma nextItem_bottomObject:
  assumes "bottomObject stk" and "nextItem t stk = Some st"
  shows "bottomObject (snd st) \<or> objectDone st"
  using assms
proof (cases "(t, stk)" rule: nextItem.cases)
  case (1 t' acc stk')
  with assms show ?thesis
    using closeArray_bottomObject [of stk st]
    by (simp del: closeArray.simps split: if_splits) (auto simp: bottomObject_Cons)
next
  case (2 t' acc stk')
  with assms show ?thesis
    using closeObject_bottomObject [of stk st]
    by (simp del: closeObject.simps split: if_splits) (auto simp: bottomObject_Cons)
qed (use assms in auto)

lemma step_bottomObject:
  assumes "bottomObject stk" and "step (m, stk) t = Some st"
  shows "bottomObject (snd st) \<or> objectDone st"
  using assms
  by (cases m)
     (auto split: if_splits
           dest: closeArray_bottomObject closeObject_bottomObject startValue_bottomObject
                 startField_bottomObject nextItem_bottomObject)

lemma run_objectDone:
  "objectDone st \<Longrightarrow> run st ts = Some v \<Longrightarrow> \<exists>members. v = JObject members"
  by (cases ts) (auto simp: objectDone_def)

lemma run_bottomObject:
  "bottomObject stk \<Longrightarrow> run (m, stk) ts = Some v \<Longrightarrow> \<exists>members. v = JObject members"
proof (induction ts arbitrary: m stk)
  case Nil
  then show ?case by (cases stk; cases m) auto
next
  case (Cons t ts)
  from Cons.prems(2) obtain st where st: "step (m, stk) t = Some st" and r: "run st ts = Some v"
    by (auto split: option.splits)
  from step_bottomObject [OF Cons.prems(1) st] show ?case
  proof
    assume "bottomObject (snd st)"
    with Cons.IH [of "snd st" "fst st"] r show ?thesis by simp
  next
    assume "objectDone st"
    then show ?thesis using r by (rule run_objectDone)
  qed
qed

lemma lex_open_brace: "lex (cu (CHR ''{'') # cs) = consToken LBrace (lex cs)"
  by (simp add: isJsonWhiteSpace_def cu_def)

lemma JSON_parse_open_brace:
  assumes "JSON_parse (cu (CHR ''{'') # cs) = Some v"
  shows "\<exists>members. v = JObject members"
proof -
  from assms
  have "(case consToken LBrace (lex cs) of None \<Rightarrow> None | Some ts \<Rightarrow> run (PValue, []) ts) = Some v"
    unfolding JSON_parse_def lex_open_brace .
  then obtain ts where "lex cs = Some ts" and r: "run (PValue, []) (LBrace # ts) = Some v"
    by (auto simp: consToken_def split: option.splits)
  from r have "run (PKeyOrEnd, [FObject []]) ts = Some v" by simp
  then show ?thesis by (rule run_bottomObject [rotated]) simp
qed

lemma extractSuggestion_object:
  assumes "regexMatch raw = Some span" and "JSON_parse span = Some v"
  shows "\<exists>members. v = JObject members"
  using assms regexMatch_starts_with_brace [OF assms(1)] JSON_parse_open_brace by blast


section \<open>The single-sentence validator\<close>

lemma Math_min_eq_Min:
  assumes "xs \<noteq> []"
  shows "Math_min xs = Min (set xs)"
proof (cases xs)
  case Nil
  with assms show ?thesis by simp
next
  case (Cons a list)
  then show ?thesis using Min.set_eq_fold [of a list] by (simp add: Math_min_def)
qed

lemma length_takeWhile_mono:
  "(\<And>x. P x \<Longrightarrow> Q x) \<Longrightarrow> length (takeWhile P xs) \<le> length (takeWhile Q xs)"
  by (induction xs) auto

lemma takeWhile_first_hit:
  "dropWhile P xs = t # rest \<Longrightarrow> length (takeWhile (\<lambda>c. c \<noteq> t) xs) = length (takeWhile P xs)"
proof (induction xs)
  case Nil
  then show ?case by simp
next
  case (Cons x xs)
  show ?case
  proof (cases "P x")
    case True
    with Cons.prems have dw: "dropWhile P xs = t # rest" by simp
    then have "\<not> P t" using hd_dropWhile [of P xs] by simp
    with True have "x \<noteq> t" by auto
    with True Cons.IH [OF dw] show ?thesis by simp
  next
    case False
    with Cons.prems show ?thesis by simp
  qed
qed

lemma terminator_indices:
  "set (filter (\<lambda>i. i \<noteq> -1) (map (\<lambda>t. indexOf s t) [cu (CHR ''.''), cu (CHR ''?''), cu (CHR ''!'')]))
   = (\<lambda>t. int (length (takeWhile (\<lambda>c. c \<noteq> t) s))) ` {t \<in> set s. isTerminator t}"
  by (auto simp: indexOf_eq isTerminator_def)

lemma first_terminator_index:
  assumes "\<exists>c\<in>set s. isTerminator c"
  shows "Math_min (filter (\<lambda>i. i \<noteq> -1) (map (\<lambda>t. indexOf s t) [cu (CHR ''.''), cu (CHR ''?''), cu (CHR ''!'')]))
         = int (length (takeWhile (\<lambda>c. \<not> isTerminator c) s))"
proof -
  let ?L = "filter (\<lambda>i. i \<noteq> -1) (map (\<lambda>t. indexOf s t) [cu (CHR ''.''), cu (CHR ''?''), cu (CHR ''!'')])"
  let ?k = "length (takeWhile (\<lambda>c. \<not> isTerminator c) s)"
  from assms have "dropWhile (\<lambda>c. \<not> isTerminator c) s \<noteq> []"
    by (simp add: dropWhile_eq_Nil_conv)
  then obtain t rest where dw: "dropWhile (\<lambda>c. \<not> isTerminator c) s = t # rest"
    by (cases "dropWhile (\<lambda>c. \<not> isTerminator c) s") auto
  have tT: "isTerminator t" using hd_dropWhile [of "\<lambda>c. \<not> isTerminator c" s] dw by simp
  have ts: "t \<in> set s" using set_dropWhileD [of t "\<lambda>c. \<not> isTerminator c" s] dw by simp
  have "length (takeWhile (\<lambda>c. c \<noteq> t) s) = ?k" using takeWhile_first_hit [OF dw] .
  with tT ts have mem: "int ?k \<in> set ?L"
    unfolding terminator_indices by force
  have low: "\<forall>i\<in>set ?L. int ?k \<le> i"
    unfolding terminator_indices
    by (auto intro!: length_takeWhile_mono)
  from mem have "?L \<noteq> []" by auto
  then have "Math_min ?L = Min (set ?L)" by (rule Math_min_eq_Min)
  also have "\<dots> = int ?k" using mem low by (intro Min_eqI) auto
  finally show ?thesis .
qed

lemma no_terminator_indices:
  assumes "\<not> (\<exists>c\<in>set s. isTerminator c)"
  shows "filter (\<lambda>i. i \<noteq> -1) (map (\<lambda>t. indexOf s t) [cu (CHR ''.''), cu (CHR ''?''), cu (CHR ''!'')]) = []"
  using assms by (auto simp: indexOf_eq isTerminator_def)

lemma some_terminator_indices:
  assumes "\<exists>c\<in>set s. isTerminator c"
  shows "filter (\<lambda>i. i \<noteq> -1) (map (\<lambda>t. indexOf s t) [cu (CHR ''.''), cu (CHR ''?''), cu (CHR ''!'')]) \<noteq> []"
proof -
  have "set (filter (\<lambda>i. i \<noteq> -1) (map (\<lambda>t. indexOf s t) [cu (CHR ''.''), cu (CHR ''?''), cu (CHR ''!'')])) \<noteq> {}"
    unfolding terminator_indices using assms by auto
  then show ?thesis by auto
qed

lemma validateIsSingleSentence_char:
  "validateIsSingleSentence s =
     (if \<exists>c\<in>set (after_first_terminator s). \<not> isWhiteSpace c
      then Inl (NotSingleSentence s) else Inr ())"
proof (cases "\<exists>c\<in>set s. isTerminator c")
  case False
  then have dw: "dropWhile (\<lambda>c. \<not> isTerminator c) s = []"
    by (simp add: dropWhile_eq_Nil_conv)
  have "after_first_terminator s = []"
    unfolding after_first_terminator_def dw by simp
  then show ?thesis
    using no_terminator_indices [OF False]
    by (simp add: validateIsSingleSentence_def)
next
  case True
  have "substring s (int (length (takeWhile (\<lambda>c. \<not> isTerminator c) s)) + 1)
        = after_first_terminator s"
    by (simp add: substring_def after_first_terminator_def nat_add_distrib dropWhile_eq_drop
                  drop_Suc tl_drop)
  then show ?thesis
    using some_terminator_indices [OF True] first_terminator_index [OF True] trim_eq_Nil
    by (simp add: validateIsSingleSentence_def Let_def)
qed


section \<open>The actionable and the scope validator\<close>

lemma ACTION_VERBS_ascii:
  "\<forall>verb\<in>set ACTION_VERBS. \<forall>a\<in>set verb. a < 128 \<and> (isWhiteSpace a \<longrightarrow> a = cu (CHR '' ''))"
  by code_simp

lemma prefix_toLowerCase_space:
  assumes "prefix verb (toLowerCase xs)" and "cu (CHR '' '') \<in> set verb"
  shows "cu (CHR '' '') \<in> set xs"
proof -
  from assms have "cu (CHR '' '') \<in> set (toLowerFrom [] xs)"
    using set_mono_prefix by (fastforce simp: toLowerCase_def)
  then show ?thesis by (rule toLowerFrom_space)
qed

lemma verb_prefix_token:
  assumes "verb \<in> set ACTION_VERBS"
  shows "prefix verb (toLowerCase (takeWhile (\<lambda>c. c \<noteq> cu (CHR '' '')) xs))
         \<longleftrightarrow> prefix verb (toLowerCase (takeWhile (\<lambda>c. \<not> isWhiteSpace c) xs))"
proof (cases "\<exists>a\<in>set verb. isWhiteSpace a")
  case True
  with assms ACTION_VERBS_ascii have sp: "cu (CHR '' '') \<in> set verb" by metis
  have "\<not> prefix verb (toLowerCase (takeWhile (\<lambda>c. c \<noteq> cu (CHR '' '')) xs))"
    using prefix_toLowerCase_space [OF _ sp] set_takeWhileD by fastforce
  moreover have "\<not> prefix verb (toLowerCase (takeWhile (\<lambda>c. \<not> isWhiteSpace c) xs))"
    using prefix_toLowerCase_space [OF _ sp] set_takeWhileD isWhiteSpace_space by fastforce
  ultimately show ?thesis by simp
next
  case False
  then have nows: "\<forall>a\<in>set verb. \<not> isWhiteSpace a" by simp
  from assms ACTION_VERBS_ascii have ascii: "\<forall>a\<in>set verb. a < 128" by blast
  show ?thesis
    by (simp only: prefix_toLowerCase [OF ascii] asciiMatch_first_token [OF nows])
qed

lemma validateIsActionable_char:
  "validateIsActionable s = (if matches_action_verb s then Inr () else Inl (NotActionable s))"
  by (simp add: validateIsActionable_def matches_action_verb_def first_token_def Let_def
        list_ex_iff startsWith_def split_first verb_prefix_token)

text \<open>
  An entry with a space in it is never a prefix of the first word, which has none: the
  entries \<open>look up\<close>, \<open>set up\<close>, \<open>take out\<close> and \<open>go to\<close> match no text.
\<close>

lemma entry_with_space_never_matches:
  assumes "cu (CHR '' '') \<in> set verb"
  shows "\<not> startsWith (toLowerCase (split (trim s) (cu (CHR '' '')) ! 0)) verb"
proof
  assume "startsWith (toLowerCase (split (trim s) (cu (CHR '' '')) ! 0)) verb"
  then have "prefix verb (toLowerCase (takeWhile (\<lambda>c. c \<noteq> cu (CHR '' '')) (trim s)))"
    by (simp add: startsWith_def split_first)
  then have "cu (CHR '' '') \<in> set (takeWhile (\<lambda>c. c \<noteq> cu (CHR '' '')) (trim s))"
    using assms by (rule prefix_toLowerCase_space)
  then show False using set_takeWhileD by fastforce
qed

lemma validateIsShort_char:
  "validateIsShort s = (if contains_red_flag s then Inl (TooLargeScope s) else Inr ())"
  by (simp add: validateIsShort_def contains_red_flag_def Let_def list_ex_iff
        includes'_iff_sublist)


lemma RED_FLAG_PHRASES_ascii: "\<forall>w\<in>set RED_FLAG_PHRASES. \<forall>a\<in>set w. a < 128"
  by code_simp

text \<open>
  The two validators that lower the case, computed without the case table: the entries of
  both lists are ASCII.
\<close>

lemma validateIsActionable_ascii [code]:
  "validateIsActionable s =
     (if list_ex (\<lambda>verb. asciiMatch verb (split (trim s) (cu (CHR '' '')) ! 0)) ACTION_VERBS
      then Inr () else Inl (NotActionable s))"
proof -
  have "list_ex (\<lambda>verb. startsWith (toLowerCase (split (trim s) (cu (CHR '' '')) ! 0)) verb)
          ACTION_VERBS
        \<longleftrightarrow> list_ex (\<lambda>verb. asciiMatch verb (split (trim s) (cu (CHR '' '')) ! 0)) ACTION_VERBS"
    unfolding list_ex_iff startsWith_def
    using ACTION_VERBS_ascii prefix_toLowerCase by (intro bex_cong refl) blast
  then show ?thesis by (simp add: validateIsActionable_def Let_def)
qed

lemma validateIsShort_ascii [code]:
  "validateIsShort s =
     (if list_ex (\<lambda>w. asciiIncludes w s) RED_FLAG_PHRASES
      then Inl (TooLargeScope s) else Inr ())"
proof -
  have "list_ex (\<lambda>w. includes' (toLowerCase s) w) RED_FLAG_PHRASES
        \<longleftrightarrow> list_ex (\<lambda>w. asciiIncludes w s) RED_FLAG_PHRASES"
    unfolding list_ex_iff includes'_iff_sublist
    using RED_FLAG_PHRASES_ascii sublist_toLowerCase by (intro bex_cong refl) blast
  then show ?thesis by (simp add: validateIsShort_def Let_def)
qed


text \<open>
  C7. The Actionable validator passes a text if and only if the first whitespace-delimited
  token of the trimmed text, lower-cased, has an entry of the action-verb list as a prefix;
  otherwise it throws the error naming the text. The list holds the entries
  \<open>look up\<close>, \<open>set up\<close>, \<open>take out\<close> and \<open>go to\<close> beside \<open>write\<close>, \<open>open\<close> and
  \<open>check\<close>. \<open>Open the document.\<close> passes; \<open>Think about your options.\<close> and
  \<open>You should write an outline.\<close> fail.
\<close>

theorem validateIsActionable_first_token:
  "(validateIsActionable s = Inr () \<longleftrightarrow> matches_action_verb s)
   \<and> (validateIsActionable s \<noteq> Inr () \<longrightarrow> validateIsActionable s = Inl (NotActionable s))
   \<and> set [js ''look up'', js ''set up'', js ''take out'', js ''go to'', js ''write'', js ''open'', js ''check'']
       \<subseteq> set ACTION_VERBS
   \<and> validateIsActionable (js ''Open the document.'') = Inr ()
   \<and> validateIsActionable (js ''Think about your options.'')
       = Inl (NotActionable (js ''Think about your options.''))
   \<and> validateIsActionable (js ''You should write an outline.'')
       = Inl (NotActionable (js ''You should write an outline.''))"
proof -
  have a: "validateIsActionable s = Inr () \<longleftrightarrow> matches_action_verb s"
    by (simp add: validateIsActionable_char)
  have b: "validateIsActionable s \<noteq> Inr () \<longrightarrow> validateIsActionable s = Inl (NotActionable s)"
    by (simp add: validateIsActionable_char)
  have c: "set [js ''look up'', js ''set up'', js ''take out'', js ''go to'', js ''write'', js ''open'', js ''check'']
       \<subseteq> set ACTION_VERBS"
    by code_simp
  have d: "validateIsActionable (js ''Open the document.'') = Inr ()" by code_simp
  have e: "validateIsActionable (js ''Think about your options.'')
       = Inl (NotActionable (js ''Think about your options.''))" by code_simp
  have f: "validateIsActionable (js ''You should write an outline.'')
       = Inl (NotActionable (js ''You should write an outline.''))" by code_simp
  from a b c d e f show ?thesis by blast
qed

theorem validateIsActionable_first_token_witness:
  "matches_action_verb (js ''  Listen to the recording.'')
   \<and> validateIsActionable (js ''  Listen to the recording.'') = Inr ()
   \<and> \<not> matches_action_verb (js ''Set up your desk.'')
   \<and> validateIsActionable (js ''Set up your desk.'') = Inl (NotActionable (js ''Set up your desk.''))"
proof -
  have m: "matches_action_verb (js ''  Listen to the recording.'')" by code_simp
  have n: "\<not> matches_action_verb (js ''Set up your desk.'')" by code_simp
  show ?thesis
    using validateIsActionable_first_token [of "js ''  Listen to the recording.''"]
          validateIsActionable_first_token [of "js ''Set up your desk.''"] m n
    by blast
qed


text \<open>
  C8. The Bounded-scope validator fails if and only if the lower-cased text contains a
  member of the red-flag list as a substring, at any position and not only at word
  boundaries; otherwise it passes.
\<close>

theorem validateIsShort_red_flag:
  "(validateIsShort s = Inl (TooLargeScope s) \<longleftrightarrow> contains_red_flag s)
   \<and> (validateIsShort s = Inr () \<longleftrightarrow> \<not> contains_red_flag s)
   \<and> set [js ''complete the'', js ''finish the'', js ''the entire module'', js ''all of the'']
       \<subseteq> set RED_FLAG_PHRASES
   \<and> validateIsShort (js ''List three tasks for this week.'') = Inr ()
   \<and> validateIsShort (js ''Finish the entire module.'')
       = Inl (TooLargeScope (js ''Finish the entire module.''))
   \<and> validateIsShort (js ''List all of them.'') = Inl (TooLargeScope (js ''List all of them.''))"
proof -
  have a: "validateIsShort s = Inl (TooLargeScope s) \<longleftrightarrow> contains_red_flag s"
    by (simp add: validateIsShort_char)
  have b: "validateIsShort s = Inr () \<longleftrightarrow> \<not> contains_red_flag s"
    by (simp add: validateIsShort_char)
  have c: "set [js ''complete the'', js ''finish the'', js ''the entire module'', js ''all of the'']
       \<subseteq> set RED_FLAG_PHRASES"
    by code_simp
  have d: "validateIsShort (js ''List three tasks for this week.'') = Inr ()" by code_simp
  have e: "validateIsShort (js ''Finish the entire module.'')
       = Inl (TooLargeScope (js ''Finish the entire module.''))" by code_simp
  have f: "validateIsShort (js ''List all of them.'') = Inl (TooLargeScope (js ''List all of them.''))"
    by code_simp
  from a b c d e f show ?thesis by blast
qed

theorem validateIsShort_red_flag_witness:
  "contains_red_flag (js ''Write THE FIRST DRAFT now.'')
   \<and> validateIsShort (js ''Write THE FIRST DRAFT now.'')
       = Inl (TooLargeScope (js ''Write THE FIRST DRAFT now.''))
   \<and> \<not> contains_red_flag (js ''Open the file.'')
   \<and> validateIsShort (js ''Open the file.'') = Inr ()"
proof -
  have m: "contains_red_flag (js ''Write THE FIRST DRAFT now.'')"
    unfolding contains_red_flag_def includes'_iff_sublist [symmetric] by code_simp
  have n: "\<not> contains_red_flag (js ''Open the file.'')"
    unfolding contains_red_flag_def includes'_iff_sublist [symmetric] by code_simp
  show ?thesis
    using validateIsShort_red_flag [of "js ''Write THE FIRST DRAFT now.''"]
          validateIsShort_red_flag [of "js ''Open the file.''"] m n
    by blast
qed

text \<open>
  C9. The Single-sentence validator fails if and only if a character that is not
  whitespace remains after the first sentence terminator (\<open>.\<close>, \<open>?\<close> or \<open>!\<close>) of the text;
  a text with no terminator passes.
\<close>

theorem validateIsSingleSentence_first_terminator:
  "(validateIsSingleSentence s = Inl (NotSingleSentence s)
      \<longleftrightarrow> (\<exists>c\<in>set (after_first_terminator s). \<not> isWhiteSpace c))
   \<and> (validateIsSingleSentence s = Inr ()
      \<longleftrightarrow> (\<forall>c\<in>set (after_first_terminator s). isWhiteSpace c))
   \<and> ((\<forall>c\<in>set s. \<not> isTerminator c) \<longrightarrow> validateIsSingleSentence s = Inr ())
   \<and> validateIsSingleSentence (js ''Open a document.'') = Inr ()
   \<and> validateIsSingleSentence (js ''Open a document. Then write a title.'')
       = Inl (NotSingleSentence (js ''Open a document. Then write a title.''))
   \<and> validateIsSingleSentence (js ''Open a document'') = Inr ()"
proof -
  have a: "validateIsSingleSentence s = Inl (NotSingleSentence s)
      \<longleftrightarrow> (\<exists>c\<in>set (after_first_terminator s). \<not> isWhiteSpace c)"
    by (simp add: validateIsSingleSentence_char)
  have b: "validateIsSingleSentence s = Inr ()
      \<longleftrightarrow> (\<forall>c\<in>set (after_first_terminator s). isWhiteSpace c)"
    by (simp add: validateIsSingleSentence_char)
  have c: "(\<forall>c\<in>set s. \<not> isTerminator c) \<longrightarrow> validateIsSingleSentence s = Inr ()"
  proof
    assume "\<forall>c\<in>set s. \<not> isTerminator c"
    then have dw: "dropWhile (\<lambda>c. \<not> isTerminator c) s = []"
      by (simp add: dropWhile_eq_Nil_conv)
    have "after_first_terminator s = []"
      unfolding after_first_terminator_def dw by simp
    then show "validateIsSingleSentence s = Inr ()"
      by (simp add: validateIsSingleSentence_char)
  qed
  have d: "validateIsSingleSentence (js ''Open a document.'') = Inr ()" by code_simp
  have e: "validateIsSingleSentence (js ''Open a document. Then write a title.'')
       = Inl (NotSingleSentence (js ''Open a document. Then write a title.''))" by code_simp
  have f: "validateIsSingleSentence (js ''Open a document'') = Inr ()" by code_simp
  from a b c d e f show ?thesis by blast
qed

theorem validateIsSingleSentence_first_terminator_witness:
  "(\<exists>c\<in>set (after_first_terminator (js ''Open it! Now'')). \<not> isWhiteSpace c)
   \<and> validateIsSingleSentence (js ''Open it! Now'') = Inl (NotSingleSentence (js ''Open it! Now''))
   \<and> \<not> (\<exists>c\<in>set (after_first_terminator (js ''Open it?  '')). \<not> isWhiteSpace c)
   \<and> validateIsSingleSentence (js ''Open it?  '') = Inr ()
   \<and> \<not> (\<exists>c\<in>set (js ''Open it''). isTerminator c)
   \<and> validateIsSingleSentence (js ''Open it'') = Inr ()"
proof -
  have m: "\<exists>c\<in>set (after_first_terminator (js ''Open it! Now'')). \<not> isWhiteSpace c"
    by code_simp
  have n: "\<forall>c\<in>set (after_first_terminator (js ''Open it?  '')). isWhiteSpace c"
    by code_simp
  have k: "\<forall>c\<in>set (js ''Open it''). \<not> isTerminator c"
    by code_simp
  show ?thesis
    using validateIsSingleSentence_first_terminator [of "js ''Open it! Now''"]
          validateIsSingleSentence_first_terminator [of "js ''Open it?  ''"]
          validateIsSingleSentence_first_terminator [of "js ''Open it''"] m n k
    by blast
qed


section \<open>Response extraction\<close>

lemma extractSuggestion_no_span:
  "greedy_span raw = None \<Longrightarrow> extractSuggestion raw = Inl NoJsonObject"
  by (simp add: extractSuggestion_def regexMatch_eq_greedy_span)

lemma extractSuggestion_no_parse:
  "greedy_span raw = Some span \<Longrightarrow> JSON_parse span = None
   \<Longrightarrow> extractSuggestion raw = Inl JsonSyntaxError"
  by (simp add: extractSuggestion_def regexMatch_eq_greedy_span)

lemma extractSuggestion_parsed:
  "greedy_span raw = Some span \<Longrightarrow> JSON_parse span = Some (JObject members)
   \<Longrightarrow> extractSuggestion raw =
       (case map_of (rev members) (js ''suggestion'') of
          Some (JString t) \<Rightarrow> Inr t
        | _ \<Rightarrow> Inl InvalidFormat)"
  by (simp add: extractSuggestion_def regexMatch_eq_greedy_span
           split: option.splits json.splits)

lemma extractSuggestion_cases:
  obtains
    (no_span) "greedy_span raw = None" "extractSuggestion raw = Inl NoJsonObject"
  | (no_parse) span where "greedy_span raw = Some span" "JSON_parse span = None"
      "extractSuggestion raw = Inl JsonSyntaxError"
  | (no_field) span members where "greedy_span raw = Some span"
      "JSON_parse span = Some (JObject members)"
      "\<forall>t. map_of (rev members) (js ''suggestion'') \<noteq> Some (JString t)"
      "extractSuggestion raw = Inl InvalidFormat"
  | (found) span members t where "greedy_span raw = Some span"
      "JSON_parse span = Some (JObject members)"
      "map_of (rev members) (js ''suggestion'') = Some (JString t)"
      "extractSuggestion raw = Inr t"
proof (cases "greedy_span raw")
  case None
  then show ?thesis using extractSuggestion_no_span no_span by blast
next
  case (Some span)
  show ?thesis
  proof (cases "JSON_parse span")
    case None
    with Some show ?thesis using extractSuggestion_no_parse no_parse by blast
  next
    case (Some v)
    with \<open>greedy_span raw = Some span\<close> obtain members where v: "v = JObject members"
      using extractSuggestion_object [of raw span v] by (auto simp: regexMatch_eq_greedy_span)
    note p = extractSuggestion_parsed [OF \<open>greedy_span raw = Some span\<close> Some [unfolded v]]
    show ?thesis
    proof (cases "\<exists>t. map_of (rev members) (js ''suggestion'') = Some (JString t)")
      case True
      then obtain t where t: "map_of (rev members) (js ''suggestion'') = Some (JString t)" by blast
      with p have "extractSuggestion raw = Inr t" by simp
      with t show ?thesis using found \<open>greedy_span raw = Some span\<close> Some v by blast
    next
      case False
      with p have "extractSuggestion raw = Inl InvalidFormat"
        by (auto split: option.splits json.splits)
      with False show ?thesis using no_field \<open>greedy_span raw = Some span\<close> Some v by blast
    qed
  qed
qed

lemma extractSuggestion_noise:
  assumes "cu (CHR ''{'') \<notin> set pre" and "cu (CHR ''}'') \<notin> set post"
  shows "extractSuggestion (pre @ cu (CHR ''{'') # body @ cu (CHR ''}'') # post)
         = extractSuggestion (cu (CHR ''{'') # body @ [cu (CHR ''}'')])"
proof -
  have "regexMatch (pre @ cu (CHR ''{'') # body @ cu (CHR ''}'') # post) = Some (cu (CHR ''{'') # body @ [cu (CHR ''}'')])"
    using assms by (rule regexMatch_noise)
  moreover have "regexMatch (cu (CHR ''{'') # body @ [cu (CHR ''}'')]) = Some (cu (CHR ''{'') # body @ [cu (CHR ''}'')])"
    using regexMatch_noise [of "[]" "[]" body] by simp
  ultimately show ?thesis by (simp add: extractSuggestion_def)
qed

text \<open>A string written as a JSON string is read back as it was.\<close>

lemma hexDigit_hexChar: "d < 16 \<Longrightarrow> hexDigit (hexChar d) = Some d"
  by (auto simp: hexDigit_def hexChar_def)

lemma hex4_control: "c < 32 \<Longrightarrow> hex4 48 48 (hexChar (c div 16)) (hexChar (c mod 16)) = Some c"
proof -
  assume c: "c < 32"
  then have "c div 16 < 16" by simp
  then have a: "hexDigit (hexChar (c div 16)) = Some (c div 16)" by (rule hexDigit_hexChar)
  have b: "hexDigit (hexChar (c mod 16)) = Some (c mod 16)" by (rule hexDigit_hexChar) simp
  have z: "hexDigit 48 = Some 0" by (simp add: hexDigit_def)
  show ?thesis by (simp add: hex4_def a b z)
qed

lemma lexString_quoteUnit:
  "lexString (quoteUnit c @ rest) = consString c (lexString rest)"
proof (cases "c < 32 \<and> c \<notin> {8, 9, 10, 12, 13}")
  case True
  then show ?thesis
    by (simp add: quoteUnit_def cu_def escapeChar_def hex4_control)
next
  case False
  then show ?thesis
    by (auto simp: quoteUnit_def cu_def escapeChar_def)
qed

lemma lexString_quoted:
  "lexString (concat (map quoteUnit s) @ cu (CHR 0x22) # rest) = Some (s, rest)"
proof (induction s)
  case Nil
  show ?case by (simp add: cu_def)
next
  case (Cons c s)
  then show ?case by (simp add: lexString_quoteUnit consString_def)
qed

lemma JSON_parse_quoted:
  \<open>JSON_parse (js ''{"suggestion": '' @ quoteJSON s @ js ''}'')
   = Some (JObject [(js ''suggestion'', JString s)])\<close>
proof -
  have l: \<open>lex (js ''{"suggestion": '' @ quoteJSON s @ js ''}'')
        = Some [LBrace, TString (js ''suggestion''), Colon, TString s, RBrace]\<close>
    using lexString_quoted [of s "js ''}''"]
    by (simp add: js_def cu_def quoteJSON_def isJsonWhiteSpace_def consString_def consToken_def)
  show ?thesis unfolding JSON_parse_def l by simp
qed

lemma extractSuggestion_quoted:
  \<open>extractSuggestion (js ''{"suggestion": '' @ quoteJSON s @ js ''}'') = Inr s\<close>
proof -
  have a: \<open>regexMatch (cu (CHR ''{'') # (js ''"suggestion": '' @ quoteJSON s) @ [cu (CHR ''}'')])
        = Some (cu (CHR ''{'') # (js ''"suggestion": '' @ quoteJSON s) @ [cu (CHR ''}'')])\<close>
    using regexMatch_noise [of "[]" "[]" \<open>js ''"suggestion": '' @ quoteJSON s\<close>] by simp
  have b: \<open>cu (CHR ''{'') # (js ''"suggestion": '' @ quoteJSON s) @ [cu (CHR ''}'')]
                 = js ''{"suggestion": '' @ quoteJSON s @ js ''}''\<close>
    by (simp add: js_def)
  have r: \<open>regexMatch (js ''{"suggestion": '' @ quoteJSON s @ js ''}'')
        = Some (js ''{"suggestion": '' @ quoteJSON s @ js ''}'')\<close>
    using a by (simp only: b)
  show ?thesis
    unfolding extractSuggestion_def r
    by (simp add: JSON_parse_quoted)
qed

text \<open>
  C6. Extraction takes the span from the first \<open>{\<close> through the last \<open>}\<close> of the raw
  text, parses it as JSON and yields the string under \<open>suggestion\<close>. It fails exactly
  when there is no such span, when the span is not JSON, or when the parsed object has no
  string under \<open>suggestion\<close>, each with an error of its own. Text before the span without a
  \<open>{\<close> and text after it without a \<open>}\<close> do not change the result. Every string, written
  as a JSON string under \<open>suggestion\<close>, is yielded as it was. The results on the reply
  of the specification and on further replies are listed: escapes in the string, members
  with the same key, and texts that are not JSON (a trailing comma, a key without quotes,
  single quotes, malformed numbers and literals, an unknown or cut escape, a control
  character in a string, something after the object, whitespace that JSON has not).
\<close>

theorem extractSuggestion_first_to_last_brace:
  \<open>regexMatch raw = greedy_span raw
   \<and> (extractSuggestion raw = Inr t \<longleftrightarrow>
        (\<exists>span members. greedy_span raw = Some span
           \<and> JSON_parse span = Some (JObject members)
           \<and> map_of (rev members) (js ''suggestion'') = Some (JString t)))
   \<and> (extractSuggestion raw = Inl NoJsonObject \<longleftrightarrow> greedy_span raw = None)
   \<and> (extractSuggestion raw = Inl JsonSyntaxError \<longleftrightarrow>
        (\<exists>span. greedy_span raw = Some span \<and> JSON_parse span = None))
   \<and> (extractSuggestion raw = Inl InvalidFormat \<longleftrightarrow>
        (\<exists>span members. greedy_span raw = Some span
           \<and> JSON_parse span = Some (JObject members)
           \<and> (\<forall>t'. map_of (rev members) (js ''suggestion'') \<noteq> Some (JString t'))))
   \<and> (\<forall>e. extractSuggestion raw = Inl e \<longrightarrow>
          e = NoJsonObject \<or> e = JsonSyntaxError \<or> e = InvalidFormat)
   \<and> (cu (CHR ''{'') \<notin> set pre \<and> cu (CHR ''}'') \<notin> set post \<longrightarrow>
        extractSuggestion (pre @ cu (CHR ''{'') # body @ cu (CHR ''}'') # post)
        = extractSuggestion (cu (CHR ''{'') # body @ [cu (CHR ''}'')]))
   \<and> extractSuggestion (js ''{"suggestion": '' @ quoteJSON cand @ js ''}'') = Inr cand
   \<and> extractSuggestion (js ''{"suggestion": "Open the file."}'') = Inr (js ''Open the file.'')
   \<and> extractSuggestion (js ''Sure!'' @ [10] @ js ''```json'' @ [10]
         @ js ''{"suggestion": "Write one sentence."}'' @ [10] @ js ''```'')
       = Inr (js ''Write one sentence.'')
   \<and> extractSuggestion (js ''{"suggestion": "Open '' @ [cu (CHR 0x5C)] @ js ''u201cfile''
         @ [cu (CHR 0x5C)] @ js ''u201D."}'')
       = Inr (js ''Open '' @ [0x201C] @ js ''file'' @ [0x201D] @ js ''.'')
   \<and> extractSuggestion (js ''{"suggestion": "a'' @ [cu (CHR 0x5C)] @ js ''"b''
         @ [cu (CHR 0x5C), cu (CHR 0x5C)] @ js ''c'' @ [cu (CHR 0x5C)] @ js ''/d''
         @ [cu (CHR 0x5C)] @ js ''ne'' @ [cu (CHR 0x5C)] @ js ''tf'' @ [cu (CHR 0x5C)] @ js ''rg''
         @ [cu (CHR 0x5C)] @ js ''bh'' @ [cu (CHR 0x5C)] @ js ''fi"}'')
       = Inr (js ''a"b'' @ [cu (CHR 0x5C)] @ js ''c/d'' @ [10] @ js ''e'' @ [9] @ js ''f'' @ [13]
              @ js ''g'' @ [8] @ js ''h'' @ [12] @ js ''i'')
   \<and> extractSuggestion (js ''{"suggestion": "b", "suggestion": "Open it"}'') = Inr (js ''Open it'')
   \<and> extractSuggestion (js ''{"suggestion": "x",}'') = Inl JsonSyntaxError
   \<and> extractSuggestion (js ''{suggestion: "x"}'') = Inl JsonSyntaxError
   \<and> extractSuggestion (js ''{"suggestion": 1.}'') = Inl JsonSyntaxError
   \<and> extractSuggestion (js ''{"suggestion": 01}'') = Inl JsonSyntaxError
   \<and> extractSuggestion (js ''{"suggestion": "a'' @ [cu (CHR 0x5C)] @ js ''qb"}'')
       = Inl JsonSyntaxError
   \<and> extractSuggestion (js ''{"suggestion": "a'' @ [10] @ js ''b"}'') = Inl JsonSyntaxError
   \<and> extractSuggestion (js ''{"suggestion": -1.5e+3}'') = Inl InvalidFormat
   \<and> extractSuggestion (js ''{"suggestion": ["Open it"]}'') = Inl InvalidFormat
   \<and> extractSuggestion (js ''{"suggestion": null}'') = Inl InvalidFormat
   \<and> extractSuggestion (js ''{"step": "Open it"}'') = Inl InvalidFormat
   \<and> extractSuggestion (js ''{ "a" : [1, 2.5e-3, true, false, null, {"b": []}, {}],'' @ [9, 13, 10]
       @ js ''"suggestion" : "Open it" }'') = Inr (js ''Open it'')
   \<and> extractSuggestion (js ''{"suggestion": ""}'') = Inr []
   \<and> extractSuggestion (js ''{"suggestion": "'' @ [cu (CHR 0x5C)] @ js ''uD83D''
       @ [cu (CHR 0x5C)] @ js ''ude00"}'') = Inr [0xD83D, 0xDE00]
   \<and> extractSuggestion (js ''{"suggestion": "Open it"} and then }'') = Inl JsonSyntaxError
   \<and> extractSuggestion (js ''{"suggestion": "Open it"}}'') = Inl JsonSyntaxError
   \<and> extractSuggestion (js ''{'' @ [39] @ js ''suggestion'' @ [39] @ js '': '' @ [39] @ js ''x''
       @ [39] @ js ''}'') = Inl JsonSyntaxError
   \<and> extractSuggestion (js ''{"suggestion": .5}'') = Inl JsonSyntaxError
   \<and> extractSuggestion (js ''{"suggestion": +1}'') = Inl JsonSyntaxError
   \<and> extractSuggestion (js ''{"suggestion": -}'') = Inl JsonSyntaxError
   \<and> extractSuggestion (js ''{"suggestion": 1e}'') = Inl JsonSyntaxError
   \<and> extractSuggestion (js ''{"suggestion": 0x10}'') = Inl JsonSyntaxError
   \<and> extractSuggestion (js ''{"suggestion": NaN}'') = Inl JsonSyntaxError
   \<and> extractSuggestion (js ''{"suggestion": tru}'') = Inl JsonSyntaxError
   \<and> extractSuggestion (js ''{"suggestion": "'' @ [cu (CHR 0x5C)] @ js ''u12G4"}'')
       = Inl JsonSyntaxError
   \<and> extractSuggestion (js ''{"suggestion": "x" "y"}'') = Inl JsonSyntaxError
   \<and> extractSuggestion (js ''{"suggestion" "x"}'') = Inl JsonSyntaxError
   \<and> extractSuggestion (js ''{"suggestion": [1,]}'') = Inl JsonSyntaxError
   \<and> extractSuggestion (js ''{"a": 1,, "suggestion": "x"}'') = Inl JsonSyntaxError
   \<and> extractSuggestion (js ''{"suggestion": "x}'') = Inl JsonSyntaxError
   \<and> extractSuggestion (js ''{"suggestion": "x'' @ [cu (CHR 0x5C)] @ js ''"}'')
       = Inl JsonSyntaxError
   \<and> extractSuggestion (js ''{"suggestion": "a'' @ [9] @ js ''b"}'') = Inl JsonSyntaxError
   \<and> extractSuggestion (js ''{'' @ [12] @ js ''"suggestion": "x"}'') = Inl JsonSyntaxError
   \<and> extractSuggestion (js ''{'' @ [160] @ js ''"suggestion": "x"}'') = Inl JsonSyntaxError
   \<and> extractSuggestion (js ''{"suggestion": "Open it", "suggestion": 5}'') = Inl InvalidFormat
   \<and> extractSuggestion (js ''{"suggestion": {"suggestion": "Open it"}}'') = Inl InvalidFormat
   \<and> extractSuggestion (js ''{"Suggestion": "Open it"}'') = Inl InvalidFormat
   \<and> extractSuggestion (js ''{"suggestion": true}'') = Inl InvalidFormat
   \<and> extractSuggestion (js ''{}'') = Inl InvalidFormat
   \<and> extractSuggestion (js ''{"suggestion": "'' @ [cu (CHR 0x5C)] @ js ''u09AF''
       @ [cu (CHR 0x5C)] @ js ''u09af'' @ [cu (CHR 0x5C)] @ js ''uabcd''
       @ [cu (CHR 0x5C)] @ js ''uABCD'' @ [cu (CHR 0x5C)] @ js ''uefEF"}'')
       = Inr [0x09AF, 0x09AF, 0xABCD, 0xABCD, 0xEFEF]
   \<and> extractSuggestion (js ''{"suggestion": "a'' @ [0x7F, 0x2028, 0xE9] @ js ''b"}'')
       = Inr (js ''a'' @ [0x7F, 0x2028, 0xE9] @ js ''b'')
   \<and> extractSuggestion (js ''{"suggestion": "a'' @ [0x1F] @ js ''b"}'') = Inl JsonSyntaxError
   \<and> extractSuggestion (js ''{"suggestion": "'' @ [cu (CHR 0x5C)] @ js ''u00/0"}'')
       = Inl JsonSyntaxError
   \<and> extractSuggestion (js ''{"suggestion": "'' @ [cu (CHR 0x5C)] @ js ''u00:0"}'')
       = Inl JsonSyntaxError
   \<and> extractSuggestion (js ''{"suggestion": "'' @ [cu (CHR 0x5C)] @ js ''u00@0"}'')
       = Inl JsonSyntaxError
   \<and> extractSuggestion (js ''{"suggestion": "'' @ [cu (CHR 0x5C)] @ js ''u00`0"}'')
       = Inl JsonSyntaxError
   \<and> extractSuggestion (js ''{"suggestion": "'' @ [cu (CHR 0x5C)] @ js ''u00g0"}'')
       = Inl JsonSyntaxError
   \<and> extractSuggestion (js ''{"suggestion": "'' @ [cu (CHR 0x5C)] @ js ''u201"}'')
       = Inl JsonSyntaxError
   \<and> extractSuggestion (js ''{"suggestion": [0, -0, 10, 0.0, 1E5, 1e+5, 0e0, 9.09e-10]}'')
       = Inl InvalidFormat
   \<and> extractSuggestion (js ''{"suggestion": [[], [{}], {"a": {"b": [true]}}]}'')
       = Inl InvalidFormat
   \<and> extractSuggestion (js ''{"suggestion": false}'') = Inl InvalidFormat
   \<and> extractSuggestion (js ''{"suggestion": -01}'') = Inl JsonSyntaxError
   \<and> extractSuggestion (js ''{"suggestion": 00}'') = Inl JsonSyntaxError
   \<and> extractSuggestion (js ''{"suggestion": - 1}'') = Inl JsonSyntaxError
   \<and> extractSuggestion (js ''{"suggestion": 1.e5}'') = Inl JsonSyntaxError
   \<and> extractSuggestion (js ''{"suggestion": 1e+}'') = Inl JsonSyntaxError
   \<and> extractSuggestion (js ''{"suggestion": 1e5.5}'') = Inl JsonSyntaxError
   \<and> extractSuggestion (js ''{"suggestion": 1 2}'') = Inl JsonSyntaxError
   \<and> extractSuggestion (js ''{"suggestion": True}'') = Inl JsonSyntaxError
   \<and> extractSuggestion (js ''{"suggestion": nul}'') = Inl JsonSyntaxError
   \<and> extractSuggestion (js ''{"suggestion": falsey}'') = Inl JsonSyntaxError
   \<and> extractSuggestion (js ''{"suggestion": undefined}'') = Inl JsonSyntaxError
   \<and> extractSuggestion (js ''{"suggestion": [1}'') = Inl JsonSyntaxError
   \<and> extractSuggestion (js ''{"suggestion": [,1]}'') = Inl JsonSyntaxError
   \<and> extractSuggestion (js ''{"suggestion": {"a": 1]}'') = Inl JsonSyntaxError
   \<and> extractSuggestion (js ''{"suggestion": {"a": 1}'') = Inl JsonSyntaxError
   \<and> extractSuggestion (js ''{"suggestion"}'') = Inl JsonSyntaxError
   \<and> extractSuggestion (js ''{"suggestion":}'') = Inl JsonSyntaxError
   \<and> extractSuggestion (js ''{: "x"}'') = Inl JsonSyntaxError
   \<and> extractSuggestion (js ''{1: "x"}'') = Inl JsonSyntaxError
   \<and> extractSuggestion (js ''{,"suggestion": "x"}'') = Inl JsonSyntaxError
   \<and> extractSuggestion (js ''{"a": 1 "suggestion": "x"}'') = Inl JsonSyntaxError
   \<and> extractSuggestion (js ''{"suggestion": "x"} {"suggestion": "y"}'') = Inl JsonSyntaxError
   \<and> extractSuggestion (js ''[{"suggestion": "x"}]'') = Inr (js ''x'')
   \<and> extractSuggestion (js ''"suggestion": "x"}'') = Inl NoJsonObject
   \<and> extractSuggestion (js ''{"suggestion": "x"'') = Inl NoJsonObject
   \<and> extractSuggestion [] = Inl NoJsonObject\<close>
proof -
  have pins:
    \<open>extractSuggestion (js ''{"suggestion": "Open '' @ [cu (CHR 0x5C)] @ js ''u201cfile''
         @ [cu (CHR 0x5C)] @ js ''u201D."}'')
       = Inr (js ''Open '' @ [0x201C] @ js ''file'' @ [0x201D] @ js ''.'')\<close>
    \<open>extractSuggestion (js ''{"suggestion": "a'' @ [cu (CHR 0x5C)] @ js ''"b''
         @ [cu (CHR 0x5C), cu (CHR 0x5C)] @ js ''c'' @ [cu (CHR 0x5C)] @ js ''/d''
         @ [cu (CHR 0x5C)] @ js ''ne'' @ [cu (CHR 0x5C)] @ js ''tf'' @ [cu (CHR 0x5C)] @ js ''rg''
         @ [cu (CHR 0x5C)] @ js ''bh'' @ [cu (CHR 0x5C)] @ js ''fi"}'')
       = Inr (js ''a"b'' @ [cu (CHR 0x5C)] @ js ''c/d'' @ [10] @ js ''e'' @ [9] @ js ''f'' @ [13]
              @ js ''g'' @ [8] @ js ''h'' @ [12] @ js ''i'')\<close>
    \<open>extractSuggestion (js ''{"suggestion": "b", "suggestion": "Open it"}'') = Inr (js ''Open it'')\<close>
    \<open>extractSuggestion (js ''{"suggestion": "x",}'') = Inl JsonSyntaxError\<close>
    \<open>extractSuggestion (js ''{suggestion: "x"}'') = Inl JsonSyntaxError\<close>
    \<open>extractSuggestion (js ''{"suggestion": 1.}'') = Inl JsonSyntaxError\<close>
    \<open>extractSuggestion (js ''{"suggestion": 01}'') = Inl JsonSyntaxError\<close>
    \<open>extractSuggestion (js ''{"suggestion": "a'' @ [cu (CHR 0x5C)] @ js ''qb"}'')
       = Inl JsonSyntaxError\<close>
    \<open>extractSuggestion (js ''{"suggestion": "a'' @ [10] @ js ''b"}'') = Inl JsonSyntaxError\<close>
    \<open>extractSuggestion (js ''{"suggestion": -1.5e+3}'') = Inl InvalidFormat\<close>
    \<open>extractSuggestion (js ''{"suggestion": ["Open it"]}'') = Inl InvalidFormat\<close>
    \<open>extractSuggestion (js ''{"suggestion": null}'') = Inl InvalidFormat\<close>
    \<open>extractSuggestion (js ''{"step": "Open it"}'') = Inl InvalidFormat\<close>
    by code_simp+
  have more:
    \<open>extractSuggestion (js ''{ "a" : [1, 2.5e-3, true, false, null, {"b": []}, {}],'' @ [9, 13, 10]
         @ js ''"suggestion" : "Open it" }'') = Inr (js ''Open it'')\<close>
    \<open>extractSuggestion (js ''{"suggestion": ""}'') = Inr []\<close>
    \<open>extractSuggestion (js ''{"suggestion": "'' @ [cu (CHR 0x5C)] @ js ''uD83D''
         @ [cu (CHR 0x5C)] @ js ''ude00"}'') = Inr [0xD83D, 0xDE00]\<close>
    \<open>extractSuggestion (js ''{"suggestion": "Open it"} and then }'') = Inl JsonSyntaxError\<close>
    \<open>extractSuggestion (js ''{"suggestion": "Open it"}}'') = Inl JsonSyntaxError\<close>
    \<open>extractSuggestion (js ''{'' @ [39] @ js ''suggestion'' @ [39] @ js '': '' @ [39] @ js ''x''
         @ [39] @ js ''}'') = Inl JsonSyntaxError\<close>
    \<open>extractSuggestion (js ''{"suggestion": .5}'') = Inl JsonSyntaxError\<close>
    \<open>extractSuggestion (js ''{"suggestion": +1}'') = Inl JsonSyntaxError\<close>
    \<open>extractSuggestion (js ''{"suggestion": -}'') = Inl JsonSyntaxError\<close>
    \<open>extractSuggestion (js ''{"suggestion": 1e}'') = Inl JsonSyntaxError\<close>
    \<open>extractSuggestion (js ''{"suggestion": 0x10}'') = Inl JsonSyntaxError\<close>
    \<open>extractSuggestion (js ''{"suggestion": NaN}'') = Inl JsonSyntaxError\<close>
    \<open>extractSuggestion (js ''{"suggestion": tru}'') = Inl JsonSyntaxError\<close>
    \<open>extractSuggestion (js ''{"suggestion": "'' @ [cu (CHR 0x5C)] @ js ''u12G4"}'')
       = Inl JsonSyntaxError\<close>
    \<open>extractSuggestion (js ''{"suggestion": "x" "y"}'') = Inl JsonSyntaxError\<close>
    \<open>extractSuggestion (js ''{"suggestion" "x"}'') = Inl JsonSyntaxError\<close>
    \<open>extractSuggestion (js ''{"suggestion": [1,]}'') = Inl JsonSyntaxError\<close>
    \<open>extractSuggestion (js ''{"a": 1,, "suggestion": "x"}'') = Inl JsonSyntaxError\<close>
    \<open>extractSuggestion (js ''{"suggestion": "x}'') = Inl JsonSyntaxError\<close>
    \<open>extractSuggestion (js ''{"suggestion": "x'' @ [cu (CHR 0x5C)] @ js ''"}'')
       = Inl JsonSyntaxError\<close>
    \<open>extractSuggestion (js ''{"suggestion": "a'' @ [9] @ js ''b"}'') = Inl JsonSyntaxError\<close>
    \<open>extractSuggestion (js ''{'' @ [12] @ js ''"suggestion": "x"}'') = Inl JsonSyntaxError\<close>
    \<open>extractSuggestion (js ''{'' @ [160] @ js ''"suggestion": "x"}'') = Inl JsonSyntaxError\<close>
    \<open>extractSuggestion (js ''{"suggestion": "Open it", "suggestion": 5}'') = Inl InvalidFormat\<close>
    \<open>extractSuggestion (js ''{"suggestion": {"suggestion": "Open it"}}'') = Inl InvalidFormat\<close>
    \<open>extractSuggestion (js ''{"Suggestion": "Open it"}'') = Inl InvalidFormat\<close>
    \<open>extractSuggestion (js ''{"suggestion": true}'') = Inl InvalidFormat\<close>
    \<open>extractSuggestion (js ''{}'') = Inl InvalidFormat\<close>
    by code_simp+
  have further:
    \<open>extractSuggestion (js ''{"suggestion": "'' @ [cu (CHR 0x5C)] @ js ''u09AF''
         @ [cu (CHR 0x5C)] @ js ''u09af'' @ [cu (CHR 0x5C)] @ js ''uabcd''
         @ [cu (CHR 0x5C)] @ js ''uABCD'' @ [cu (CHR 0x5C)] @ js ''uefEF"}'')
       = Inr [0x09AF, 0x09AF, 0xABCD, 0xABCD, 0xEFEF]\<close>
    \<open>extractSuggestion (js ''{"suggestion": "a'' @ [0x7F, 0x2028, 0xE9] @ js ''b"}'')
       = Inr (js ''a'' @ [0x7F, 0x2028, 0xE9] @ js ''b'')\<close>
    \<open>extractSuggestion (js ''{"suggestion": "a'' @ [0x1F] @ js ''b"}'') = Inl JsonSyntaxError\<close>
    \<open>extractSuggestion (js ''{"suggestion": "'' @ [cu (CHR 0x5C)] @ js ''u00/0"}'')
       = Inl JsonSyntaxError\<close>
    \<open>extractSuggestion (js ''{"suggestion": "'' @ [cu (CHR 0x5C)] @ js ''u00:0"}'')
       = Inl JsonSyntaxError\<close>
    \<open>extractSuggestion (js ''{"suggestion": "'' @ [cu (CHR 0x5C)] @ js ''u00@0"}'')
       = Inl JsonSyntaxError\<close>
    \<open>extractSuggestion (js ''{"suggestion": "'' @ [cu (CHR 0x5C)] @ js ''u00`0"}'')
       = Inl JsonSyntaxError\<close>
    \<open>extractSuggestion (js ''{"suggestion": "'' @ [cu (CHR 0x5C)] @ js ''u00g0"}'')
       = Inl JsonSyntaxError\<close>
    \<open>extractSuggestion (js ''{"suggestion": "'' @ [cu (CHR 0x5C)] @ js ''u201"}'')
       = Inl JsonSyntaxError\<close>
    \<open>extractSuggestion (js ''{"suggestion": [0, -0, 10, 0.0, 1E5, 1e+5, 0e0, 9.09e-10]}'')
       = Inl InvalidFormat\<close>
    \<open>extractSuggestion (js ''{"suggestion": [[], [{}], {"a": {"b": [true]}}]}'')
       = Inl InvalidFormat\<close>
    \<open>extractSuggestion (js ''{"suggestion": false}'') = Inl InvalidFormat\<close>
    \<open>extractSuggestion (js ''{"suggestion": -01}'') = Inl JsonSyntaxError\<close>
    \<open>extractSuggestion (js ''{"suggestion": 00}'') = Inl JsonSyntaxError\<close>
    \<open>extractSuggestion (js ''{"suggestion": - 1}'') = Inl JsonSyntaxError\<close>
    \<open>extractSuggestion (js ''{"suggestion": 1.e5}'') = Inl JsonSyntaxError\<close>
    \<open>extractSuggestion (js ''{"suggestion": 1e+}'') = Inl JsonSyntaxError\<close>
    \<open>extractSuggestion (js ''{"suggestion": 1e5.5}'') = Inl JsonSyntaxError\<close>
    \<open>extractSuggestion (js ''{"suggestion": 1 2}'') = Inl JsonSyntaxError\<close>
    \<open>extractSuggestion (js ''{"suggestion": True}'') = Inl JsonSyntaxError\<close>
    \<open>extractSuggestion (js ''{"suggestion": nul}'') = Inl JsonSyntaxError\<close>
    \<open>extractSuggestion (js ''{"suggestion": falsey}'') = Inl JsonSyntaxError\<close>
    \<open>extractSuggestion (js ''{"suggestion": undefined}'') = Inl JsonSyntaxError\<close>
    \<open>extractSuggestion (js ''{"suggestion": [1}'') = Inl JsonSyntaxError\<close>
    \<open>extractSuggestion (js ''{"suggestion": [,1]}'') = Inl JsonSyntaxError\<close>
    \<open>extractSuggestion (js ''{"suggestion": {"a": 1]}'') = Inl JsonSyntaxError\<close>
    \<open>extractSuggestion (js ''{"suggestion": {"a": 1}'') = Inl JsonSyntaxError\<close>
    \<open>extractSuggestion (js ''{"suggestion"}'') = Inl JsonSyntaxError\<close>
    \<open>extractSuggestion (js ''{"suggestion":}'') = Inl JsonSyntaxError\<close>
    \<open>extractSuggestion (js ''{: "x"}'') = Inl JsonSyntaxError\<close>
    \<open>extractSuggestion (js ''{1: "x"}'') = Inl JsonSyntaxError\<close>
    \<open>extractSuggestion (js ''{,"suggestion": "x"}'') = Inl JsonSyntaxError\<close>
    \<open>extractSuggestion (js ''{"a": 1 "suggestion": "x"}'') = Inl JsonSyntaxError\<close>
    \<open>extractSuggestion (js ''{"suggestion": "x"} {"suggestion": "y"}'') = Inl JsonSyntaxError\<close>
    \<open>extractSuggestion (js ''[{"suggestion": "x"}]'') = Inr (js ''x'')\<close>
    \<open>extractSuggestion (js ''"suggestion": "x"}'') = Inl NoJsonObject\<close>
    \<open>extractSuggestion (js ''{"suggestion": "x"'') = Inl NoJsonObject\<close>
    \<open>extractSuggestion [] = Inl NoJsonObject\<close>
    by code_simp+
  have a: "regexMatch raw = greedy_span raw" by (rule regexMatch_eq_greedy_span)
  have b: "extractSuggestion raw = Inr t \<longleftrightarrow>
        (\<exists>span members. greedy_span raw = Some span
           \<and> JSON_parse span = Some (JObject members)
           \<and> map_of (rev members) (js ''suggestion'') = Some (JString t))"
    by (cases raw rule: extractSuggestion_cases) auto
  have c: "extractSuggestion raw = Inl NoJsonObject \<longleftrightarrow> greedy_span raw = None"
    by (cases raw rule: extractSuggestion_cases) auto
  have d: "extractSuggestion raw = Inl JsonSyntaxError \<longleftrightarrow>
        (\<exists>span. greedy_span raw = Some span \<and> JSON_parse span = None)"
    by (cases raw rule: extractSuggestion_cases) auto
  have e: "extractSuggestion raw = Inl InvalidFormat \<longleftrightarrow>
        (\<exists>span members. greedy_span raw = Some span
           \<and> JSON_parse span = Some (JObject members)
           \<and> (\<forall>t'. map_of (rev members) (js ''suggestion'') \<noteq> Some (JString t')))"
    by (cases raw rule: extractSuggestion_cases) auto
  have f: "\<forall>e. extractSuggestion raw = Inl e \<longrightarrow>
          e = NoJsonObject \<or> e = JsonSyntaxError \<or> e = InvalidFormat"
    by (cases raw rule: extractSuggestion_cases) auto
  have g: "cu (CHR ''{'') \<notin> set pre \<and> cu (CHR ''}'') \<notin> set post \<longrightarrow>
        extractSuggestion (pre @ cu (CHR ''{'') # body @ cu (CHR ''}'') # post)
        = extractSuggestion (cu (CHR ''{'') # body @ [cu (CHR ''}'')])"
    using extractSuggestion_noise by blast
  have h: \<open>extractSuggestion (js ''{"suggestion": "Open the file."}'') = Inr (js ''Open the file.'')\<close>
    by code_simp
  have i: \<open>extractSuggestion (js ''Sure!'' @ [10] @ js ''```json'' @ [10]
         @ js ''{"suggestion": "Write one sentence."}'' @ [10] @ js ''```'')
       = Inr (js ''Write one sentence.'')\<close>
    by code_simp
  have q: \<open>extractSuggestion (js ''{"suggestion": '' @ quoteJSON cand @ js ''}'') = Inr cand\<close>
    by (rule extractSuggestion_quoted)
  from a b c d e f g q h i pins more further show ?thesis by blast
qed

theorem extractSuggestion_first_to_last_brace_witness:
  \<open>greedy_span (js ''Here: {"suggestion": 5} ok'') = Some (js ''{"suggestion": 5}'')
   \<and> JSON_parse (js ''{"suggestion": 5}'') = Some (JObject [(js ''suggestion'', JNumber (js ''5''))])
   \<and> extractSuggestion (js ''Here: {"suggestion": 5} ok'') = Inl InvalidFormat
   \<and> greedy_span (js ''} {'') = None
   \<and> extractSuggestion (js ''} {'') = Inl NoJsonObject
   \<and> greedy_span (js ''{"suggestion": "Open it"} {'') = Some (js ''{"suggestion": "Open it"}'')
   \<and> extractSuggestion (js ''{"suggestion": "Open it"} {'') = Inr (js ''Open it'')
   \<and> cu (CHR ''{'') \<notin> set (js ''Sure: '') \<and> cu (CHR ''}'') \<notin> set (js '' done'')
   \<and> extractSuggestion (js ''Sure: '' @ cu (CHR ''{'') # (js ''"suggestion": "Open it"'') @ cu (CHR ''}'') # (js '' done''))
       = extractSuggestion (cu (CHR ''{'') # (js ''"suggestion": "Open it"'') @ [cu (CHR ''}'')])\<close>
proof -
  have s1: \<open>greedy_span (js ''Here: {"suggestion": 5} ok'') = Some (js ''{"suggestion": 5}'')\<close>
    by code_simp
  have p1: \<open>JSON_parse (js ''{"suggestion": 5}'') = Some (JObject [(js ''suggestion'', JNumber (js ''5''))])\<close>
    by code_simp
  have f1: "\<forall>t'. map_of (rev [(js ''suggestion'', JNumber (js ''5''))]) (js ''suggestion'') \<noteq> Some (JString t')"
    by simp
  have s2: "greedy_span (js ''} {'') = None" by code_simp
  have s3: \<open>greedy_span (js ''{"suggestion": "Open it"} {'') = Some (js ''{"suggestion": "Open it"}'')\<close>
    by code_simp
  have p3: \<open>JSON_parse (js ''{"suggestion": "Open it"}'')
            = Some (JObject [(js ''suggestion'', JString (js ''Open it''))])\<close>
    by code_simp
  have f3: "map_of (rev [(js ''suggestion'', JString (js ''Open it''))]) (js ''suggestion'')
            = Some (JString (js ''Open it''))"
    by simp
  have n1: "cu (CHR ''{'') \<notin> set (js ''Sure: '')" by code_simp
  have n2: "cu (CHR ''}'') \<notin> set (js '' done'')" by code_simp
  have e1: \<open>extractSuggestion (js ''Here: {"suggestion": 5} ok'') = Inl InvalidFormat\<close>
    using extractSuggestion_first_to_last_brace [of \<open>js ''Here: {"suggestion": 5} ok''\<close>] s1 p1 f1
    by blast
  have e2: "extractSuggestion (js ''} {'') = Inl NoJsonObject"
    using extractSuggestion_first_to_last_brace [of "js ''} {''"] s2 by blast
  have e3: \<open>extractSuggestion (js ''{"suggestion": "Open it"} {'') = Inr (js ''Open it'')\<close>
    using extractSuggestion_first_to_last_brace
            [of \<open>js ''{"suggestion": "Open it"} {''\<close> "js ''Open it''"] s3 p3 f3
    by blast
  have e4: \<open>extractSuggestion (js ''Sure: '' @ cu (CHR ''{'') # (js ''"suggestion": "Open it"'') @ cu (CHR ''}'') # (js '' done''))
       = extractSuggestion (cu (CHR ''{'') # (js ''"suggestion": "Open it"'') @ [cu (CHR ''}'')])\<close>
    using extractSuggestion_first_to_last_brace
            [of _ _ "js ''Sure: ''" "js '' done''" \<open>js ''"suggestion": "Open it"''\<close>] n1 n2
    by blast
  from s1 p1 e1 s2 e2 s3 e3 n1 n2 e4 show ?thesis by blast
qed


section \<open>The validator pipeline\<close>

lemma runValidators_char:
  "runValidators s =
     (if \<not> matches_action_verb s then Inl (NotActionable s)
      else if contains_red_flag s then Inl (TooLargeScope s)
      else if \<exists>c\<in>set (after_first_terminator s). \<not> isWhiteSpace c
           then Inl (NotSingleSentence s)
      else Inr ())"
  by (simp add: runValidators_def validateIsActionable_char validateIsShort_char
        validateIsSingleSentence_char)

lemma first_token_blank: "trim s = [] \<Longrightarrow> first_token s = []"
  by (simp add: first_token_def)

lemma ACTION_VERBS_nonempty: "[] \<notin> set ACTION_VERBS"
  by code_simp

lemma blank_not_actionable: "trim s = [] \<Longrightarrow> \<not> matches_action_verb s"
  using ACTION_VERBS_nonempty
  by (auto simp: matches_action_verb_def first_token_blank toLowerCase_def)

lemma message_distinct:
  "message (NotActionable a) \<noteq> message (TooLargeScope b)"
  "message (NotActionable a) \<noteq> message (NotSingleSentence c)"
  "message (TooLargeScope b) \<noteq> message (NotSingleSentence c)"
  by (simp_all add: js_def cu_def)

lemma message_quotes_text:
  "e \<in> {NotActionable s, TooLargeScope s, NotSingleSentence s}
   \<Longrightarrow> \<exists>m. message e = Some (m @ [cu (CHR 0x22)] @ s @ [cu (CHR 0x22)])"
  by auto

lemma parseAndStoreSuggestion_invalid:
  "extractSuggestion raw = Inr t \<Longrightarrow> runValidators t = Inl e
   \<Longrightarrow> parseAndStoreSuggestion raw u T st = (Inl e, st)"
  by (simp add: parseAndStoreSuggestion_def)

text \<open>
  A reply that writes typographic quotes as escapes: the string is decoded, passes the
  validators and is stored with the quotes in it.
\<close>

lemma parseAndStoreSuggestion_escaped_quotes:
  \<open>fst (parseAndStoreSuggestion
          (js ''{"suggestion": "Open '' @ [cu (CHR 0x5C)] @ js ''u201cfile''
             @ [cu (CHR 0x5C)] @ js ''u201D."}'') user1 vagueTask new_Focus) = Inr ()
   \<and> suggestions (snd (parseAndStoreSuggestion
          (js ''{"suggestion": "Open '' @ [cu (CHR 0x5C)] @ js ''u201cfile''
             @ [cu (CHR 0x5C)] @ js ''u201D."}'') user1 vagueTask new_Focus)) (js ''user123'')
     = Some \<lparr>forTask = vagueTask,
             suggestionText = js ''Open '' @ [0x201C] @ js ''file'' @ [0x201D] @ js ''.''\<rparr>\<close>
  by code_simp

text \<open>
  C1, as the class has it. The validators run in the order Actionable, Bounded scope,
  Single sentence, and there is no validator for emptiness. The first one that fails ends
  \<open>parseAndStoreSuggestion\<close> with its error, whose message names the predicate and quotes
  the text. A text that is empty after trimming fails the Actionable validator.
\<close>

theorem runValidators_order:
  "(\<not> matches_action_verb s \<longrightarrow> runValidators s = Inl (NotActionable s))
   \<and> (matches_action_verb s \<and> contains_red_flag s \<longrightarrow> runValidators s = Inl (TooLargeScope s))
   \<and> (matches_action_verb s \<and> \<not> contains_red_flag s
        \<and> (\<exists>c\<in>set (after_first_terminator s). \<not> isWhiteSpace c)
       \<longrightarrow> runValidators s = Inl (NotSingleSentence s))
   \<and> (matches_action_verb s \<and> \<not> contains_red_flag s
        \<and> (\<forall>c\<in>set (after_first_terminator s). isWhiteSpace c)
       \<longrightarrow> runValidators s = Inr ())
   \<and> (trim s = [] \<longrightarrow> runValidators s = Inl (NotActionable s))
   \<and> (\<forall>e. runValidators s = Inl e \<longrightarrow>
          (\<exists>m. message e = Some (m @ [cu (CHR 0x22)] @ s @ [cu (CHR 0x22)])))
   \<and> message (NotActionable s) \<noteq> message (TooLargeScope s)
   \<and> message (NotActionable s) \<noteq> message (NotSingleSentence s)
   \<and> message (TooLargeScope s) \<noteq> message (NotSingleSentence s)
   \<and> (\<forall>e. extractSuggestion raw = Inr s \<and> runValidators s = Inl e
          \<longrightarrow> parseAndStoreSuggestion raw u T st = (Inl e, st))"
proof -
  have a: "\<not> matches_action_verb s \<longrightarrow> runValidators s = Inl (NotActionable s)"
    by (simp add: runValidators_char)
  have b: "matches_action_verb s \<and> contains_red_flag s
           \<longrightarrow> runValidators s = Inl (TooLargeScope s)"
    by (simp add: runValidators_char)
  have c: "matches_action_verb s \<and> \<not> contains_red_flag s
        \<and> (\<exists>c\<in>set (after_first_terminator s). \<not> isWhiteSpace c)
       \<longrightarrow> runValidators s = Inl (NotSingleSentence s)"
    by (simp add: runValidators_char)
  have d: "matches_action_verb s \<and> \<not> contains_red_flag s
        \<and> (\<forall>c\<in>set (after_first_terminator s). isWhiteSpace c)
       \<longrightarrow> runValidators s = Inr ()"
    by (simp add: runValidators_char)
  have e: "trim s = [] \<longrightarrow> runValidators s = Inl (NotActionable s)"
    using blank_not_actionable a by blast
  have f: "\<forall>e. runValidators s = Inl e \<longrightarrow>
          (\<exists>m. message e = Some (m @ [cu (CHR 0x22)] @ s @ [cu (CHR 0x22)]))"
  proof (intro allI impI)
    fix e assume "runValidators s = Inl e"
    then have "e \<in> {NotActionable s, TooLargeScope s, NotSingleSentence s}"
      by (auto simp: runValidators_char split: if_splits)
    then show "\<exists>m. message e = Some (m @ [cu (CHR 0x22)] @ s @ [cu (CHR 0x22)])"
      by (rule message_quotes_text)
  qed
  have g: "\<forall>e. extractSuggestion raw = Inr s \<and> runValidators s = Inl e
          \<longrightarrow> parseAndStoreSuggestion raw u T st = (Inl e, st)"
    using parseAndStoreSuggestion_invalid by blast
  from a b c d e f g message_distinct show ?thesis by blast
qed


theorem runValidators_order_witness:
  \<open>\<not> matches_action_verb (js ''Think about it.'')
   \<and> runValidators (js ''Think about it.'') = Inl (NotActionable (js ''Think about it.''))
   \<and> matches_action_verb (js ''Write the entire essay. Then rest.'')
   \<and> contains_red_flag (js ''Write the entire essay. Then rest.'')
   \<and> runValidators (js ''Write the entire essay. Then rest.'')
       = Inl (TooLargeScope (js ''Write the entire essay. Then rest.''))
   \<and> matches_action_verb (js ''Open it. Then close it.'')
   \<and> \<not> contains_red_flag (js ''Open it. Then close it.'')
   \<and> (\<exists>c\<in>set (after_first_terminator (js ''Open it. Then close it.'')). \<not> isWhiteSpace c)
   \<and> runValidators (js ''Open it. Then close it.'') = Inl (NotSingleSentence (js ''Open it. Then close it.''))
   \<and> matches_action_verb (js ''Open the file.'') \<and> \<not> contains_red_flag (js ''Open the file.'')
   \<and> \<not> (\<exists>c\<in>set (after_first_terminator (js ''Open the file.'')). \<not> isWhiteSpace c)
   \<and> runValidators (js ''Open the file.'') = Inr ()
   \<and> trim (js ''   '') = []
   \<and> runValidators (js ''   '') = Inl (NotActionable (js ''   ''))
   \<and> extractSuggestion (js ''{"suggestion": "Think about it."}'') = Inr (js ''Think about it.'')
   \<and> parseAndStoreSuggestion (js ''{"suggestion": "Think about it."}'') user1 vagueTask new_Focus
       = (Inl (NotActionable (js ''Think about it.'')), new_Focus)\<close>
proof -
  have a1: "\<not> matches_action_verb (js ''Think about it.'')" by code_simp
  have b1: "matches_action_verb (js ''Write the entire essay. Then rest.'')" by code_simp
  have b2: "contains_red_flag (js ''Write the entire essay. Then rest.'')"
    unfolding contains_red_flag_def includes'_iff_sublist [symmetric] by code_simp
  have c1: "matches_action_verb (js ''Open it. Then close it.'')" by code_simp
  have c2: "\<not> contains_red_flag (js ''Open it. Then close it.'')"
    unfolding contains_red_flag_def includes'_iff_sublist [symmetric] by code_simp
  have c3: "\<exists>c\<in>set (after_first_terminator (js ''Open it. Then close it.'')). \<not> isWhiteSpace c"
    by code_simp
  have d1: "matches_action_verb (js ''Open the file.'')" by code_simp
  have d2: "\<not> contains_red_flag (js ''Open the file.'')"
    unfolding contains_red_flag_def includes'_iff_sublist [symmetric] by code_simp
  have d3: "\<forall>c\<in>set (after_first_terminator (js ''Open the file.'')). isWhiteSpace c"
    by code_simp
  have e1: "trim (js ''   '') = []" by code_simp
  have f1: \<open>extractSuggestion (js ''{"suggestion": "Think about it."}'') = Inr (js ''Think about it.'')\<close>
    by code_simp
  note t = runValidators_order
  have a: "runValidators (js ''Think about it.'') = Inl (NotActionable (js ''Think about it.''))"
    using t [of "js ''Think about it.''"] a1 by blast
  have b: "runValidators (js ''Write the entire essay. Then rest.'')
       = Inl (TooLargeScope (js ''Write the entire essay. Then rest.''))"
    using t [of "js ''Write the entire essay. Then rest.''"] b1 b2 by blast
  have c: "runValidators (js ''Open it. Then close it.'')
       = Inl (NotSingleSentence (js ''Open it. Then close it.''))"
    using t [of "js ''Open it. Then close it.''"] c1 c2 c3 by blast
  have d: "runValidators (js ''Open the file.'') = Inr ()"
    using t [of "js ''Open the file.''"] d1 d2 d3 by blast
  have e: "runValidators (js ''   '') = Inl (NotActionable (js ''   ''))"
    using t [of "js ''   ''"] e1 by blast
  have f: \<open>parseAndStoreSuggestion (js ''{"suggestion": "Think about it."}'') user1 vagueTask new_Focus
       = (Inl (NotActionable (js ''Think about it.'')), new_Focus)\<close>
    using t [of "js ''Think about it.''" \<open>js ''{"suggestion": "Think about it."}''\<close>
                user1 vagueTask new_Focus] f1 a
    by blast
  from d3 have d4: "\<not> (\<exists>c\<in>set (after_first_terminator (js ''Open the file.'')). \<not> isWhiteSpace c)"
    by blast
  from a1 a b1 b2 b c1 c2 c3 c d1 d2 d4 d e1 e f1 f show ?thesis by blast
qed

text \<open>
  C1 as stated fails: the text of three spaces is empty after trimming, and the error it
  gets is the one of the Actionable validator, with that validator's message.
\<close>

theorem runValidators_blank_counterexample:
  \<open>trim (js ''   '') = []
   \<and> validateIsActionable (js ''   '') = Inl (NotActionable (js ''   ''))
   \<and> fst (parseAndStoreSuggestion (js ''{"suggestion": "   "}'') user1 vagueTask new_Focus)
       = Inl (NotActionable (js ''   ''))
   \<and> message (NotActionable (js ''   ''))
       = Some (js ''Validation Error: Suggestion is not an actionable command. Got: "   "'')\<close>
  by code_simp


section \<open>Generating a first step\<close>

lemma runValidators_ok:
  "runValidators t = Inr () \<Longrightarrow>
     validateIsActionable t = Inr () \<and> validateIsShort t = Inr ()
     \<and> validateIsSingleSentence t = Inr ()"
  by (auto simp: runValidators_def split: sum.splits)

lemma runValidators_error:
  "runValidators t = Inl e \<Longrightarrow>
     e = NotActionable t \<or> e = TooLargeScope t \<or> e = NotSingleSentence t"
  by (auto simp: runValidators_char split: if_splits)

lemma extractSuggestion_error:
  "extractSuggestion raw = Inl e \<Longrightarrow>
     e = NoJsonObject \<or> e = JsonSyntaxError \<or> e = InvalidFormat"
  by (cases raw rule: extractSuggestion_cases) auto

lemma parseAndStoreSuggestion_cases:
  obtains
    (extraction) e where "extractSuggestion raw = Inl e"
      "parseAndStoreSuggestion raw u T st = (Inl e, st)"
  | (validation) t e where "extractSuggestion raw = Inr t" "runValidators t = Inl e"
      "parseAndStoreSuggestion raw u T st = (Inl e, st)"
  | (stored) t where "extractSuggestion raw = Inr t" "runValidators t = Inr ()"
      "parseAndStoreSuggestion raw u T st =
         (Inr (), st\<lparr>suggestions := (suggestions st)
                        (id' u \<mapsto> \<lparr>forTask = T, suggestionText = t\<rparr>)\<rparr>)"
proof (cases "extractSuggestion raw")
  case (Inl e)
  then show ?thesis using extraction by (simp add: parseAndStoreSuggestion_def)
next
  case (Inr t)
  show ?thesis
  proof (cases "runValidators t")
    case (Inl e)
    with Inr show ?thesis using validation by (simp add: parseAndStoreSuggestion_def)
  next
    case Inr': (Inr x)
    with Inr show ?thesis using stored by (simp add: parseAndStoreSuggestion_def)
  qed
qed

lemma finishFirstStep_cases:
  obtains
    (model) m where "answer = Inl m" "finishFirstStep answer u T st = (Inl (LLMError m), st)"
  | (response) raw where "answer = Inr raw"
      "finishFirstStep answer u T st = parseAndStoreSuggestion raw u T st"
  by (cases answer) (auto simp: finishFirstStep_def)

lemma generateFirstStep_cases:
  obtains
    (no_task) "getCurrentTask u st = None"
      "generateFirstStep u llm st = (Inl (NoCurrentTask (id' u)), st)"
  | (model) T m where "getCurrentTask u st = Some T" "llm (createFirstStepPrompt T) = Inl m"
      "generateFirstStep u llm st = (Inl (LLMError m), st)"
  | (response) T raw where "getCurrentTask u st = Some T"
      "llm (createFirstStepPrompt T) = Inr raw"
      "generateFirstStep u llm st = parseAndStoreSuggestion raw u T st"
proof (cases "getCurrentTask u st")
  case None
  then show ?thesis using no_task by (simp add: generateFirstStep_def startFirstStep_def)
next
  case (Some T)
  show ?thesis
  proof (cases "llm (createFirstStepPrompt T)")
    case (Inl m)
    with Some show ?thesis using model
      by (simp add: generateFirstStep_def startFirstStep_def finishFirstStep_def)
  next
    case (Inr raw)
    with Some show ?thesis using response
      by (simp add: generateFirstStep_def startFirstStep_def finishFirstStep_def)
  qed
qed

lemma parseAndStoreSuggestion_failure:
  "fst (parseAndStoreSuggestion raw u T st) = Inl e
   \<Longrightarrow> snd (parseAndStoreSuggestion raw u T st) = st"
  by (cases rule: parseAndStoreSuggestion_cases [where raw = raw and u = u and T = T and st = st]) auto

lemma parseAndStoreSuggestion_no_precondition_error:
  "fst (parseAndStoreSuggestion raw u T st) \<noteq> Inl (NoCurrentTask uid)"
  by (cases rule: parseAndStoreSuggestion_cases [where raw = raw and u = u and T = T and st = st])
     (auto dest: extractSuggestion_error runValidators_error)

lemma finishFirstStep_failure:
  "fst (finishFirstStep answer u T st) = Inl e \<Longrightarrow> snd (finishFirstStep answer u T st) = st"
  by (cases rule: finishFirstStep_cases [where answer = answer and u = u and T = T and st = st])
     (auto dest: parseAndStoreSuggestion_failure)

lemma generateFirstStep_failure:
  "fst (generateFirstStep u llm st) = Inl e \<Longrightarrow> snd (generateFirstStep u llm st) = st"
  by (cases rule: generateFirstStep_cases [where u = u and llm = llm and st = st])
     (auto dest: parseAndStoreSuggestion_failure)

text \<open>
  What a call leaves behind: the state as it was, or the state with a suggestion for the
  user, made of the task the call has read at its start and a text that has passed the
  validators.
\<close>

lemma finishFirstStep_state:
  obtains
    (same) "snd (finishFirstStep answer u T st) = st"
  | (stored) t where "runValidators t = Inr ()"
      "snd (finishFirstStep answer u T st) =
         st\<lparr>suggestions := (suggestions st)(id' u \<mapsto> \<lparr>forTask = T, suggestionText = t\<rparr>)\<rparr>"
proof (cases rule: finishFirstStep_cases [where answer = answer and u = u and T = T and st = st])
  case (model m)
  then show ?thesis using same by simp
next
  case (response raw)
  show ?thesis
  proof (cases rule: parseAndStoreSuggestion_cases [where raw = raw and u = u and T = T and st = st])
    case (extraction e)
    with response show ?thesis using same by simp
  next
    case (validation t e)
    with response show ?thesis using same by simp
  next
    case st: (stored t)
    with response show ?thesis using stored [of t] by simp
  qed
qed

lemma generateFirstStep_state:
  obtains
    (same) "snd (generateFirstStep u llm st) = st"
  | (stored) T t where "currentTasks st (id' u) = Some T" "runValidators t = Inr ()"
      "snd (generateFirstStep u llm st) =
         st\<lparr>suggestions := (suggestions st)(id' u \<mapsto> \<lparr>forTask = T, suggestionText = t\<rparr>)\<rparr>"
proof (cases "startFirstStep u st")
  case (Inl e)
  then show ?thesis using same by (simp add: generateFirstStep_def)
next
  case (Inr T)
  then have T: "currentTasks st (id' u) = Some T"
    by (auto simp: startFirstStep_def getCurrentTask_def split: option.splits)
  have g: "generateFirstStep u llm st = finishFirstStep (llm (createFirstStepPrompt T)) u T st"
    using Inr by (simp add: generateFirstStep_def)
  show ?thesis
  proof (cases rule: finishFirstStep_state
      [where answer = "llm (createFirstStepPrompt T)" and u = u and T = T and st = st])
    case same': same
    with g show ?thesis using same by simp
  next
    case st: (stored t)
    with g T show ?thesis using stored [of T t] by simp
  qed
qed

text \<open>The text of a stored suggestion has passed the validators, in every state of the
  class, overlapping calls included.\<close>

lemma reachable_suggestion_valid:
  "reachable st pending \<Longrightarrow> suggestions st uid = Some s
   \<Longrightarrow> runValidators (suggestionText s) = Inr ()"
proof (induction arbitrary: uid s rule: reachable.induct)
  case initial
  then show ?case by (simp add: new_Focus_def)
next
  case (setTask st pending user task)
  then show ?case by (auto simp: setCurrentTask_def split: if_splits)
next
  case (clearTask st pending user)
  then show ?case by (auto simp: clearCurrentTask_def split: if_splits)
next
  case (start st pending user currentTask)
  then show ?case by simp
next
  case (finish st pending user currentTask answer)
  show ?case
  proof (cases rule: finishFirstStep_state
      [where answer = answer and u = user and T = currentTask and st = st])
    case same
    with finish show ?thesis by simp
  next
    case (stored t)
    with finish show ?thesis by (auto split: if_splits)
  qed
qed

text \<open>
  When no task of a user is set or cleared while a call for that user is suspended, every
  suspended call still holds the current task of its user, and a stored suggestion is for
  the current task of its user.
\<close>

lemma orderly_invariant:
  "orderly st pending \<Longrightarrow>
     (\<forall>(u, T)\<in>set pending. currentTasks st (id' u) = Some T)
     \<and> (\<forall>uid s. suggestions st uid = Some s \<longrightarrow> currentTasks st uid = Some (forTask s))"
proof (induction rule: orderly.induct)
  case initial
  show ?case by (simp add: new_Focus_def)
next
  case (setTask st pending user task)
  then show ?case by (force simp: setCurrentTask_def split: if_splits)
next
  case (clearTask st pending user)
  then show ?case by (force simp: clearCurrentTask_def split: if_splits)
next
  case (start st pending user currentTask)
  then show ?case
    by (auto simp: startFirstStep_def getCurrentTask_def split: option.splits)
next
  case (finish st pending user currentTask answer)
  then have T: "currentTasks st (id' user) = Some currentTask" by auto
  have sub: "set (remove1 (user, currentTask) pending) \<subseteq> set pending"
    by (rule set_remove1_subset)
  show ?case
  proof (cases rule: finishFirstStep_state
      [where answer = answer and u = user and T = currentTask and st = st])
    case same
    with finish sub show ?thesis by auto
  next
    case (stored t)
    with finish sub T show ?thesis by (auto split: if_splits)
  qed
qed

lemma orderly_suggestion_task:
  "orderly st pending \<Longrightarrow> suggestions st uid = Some s
   \<Longrightarrow> currentTasks st uid = Some (forTask s)"
  using orderly_invariant by blast

text \<open>Such states are states of the class, and a call that is awaited at once, a start
  followed by its finish, leads from one to another.\<close>

lemma orderly_reachable: "orderly st pending \<Longrightarrow> reachable st pending"
  by (induction rule: orderly.induct)
     (auto intro: reachable.initial reachable.setTask reachable.clearTask reachable.start
                  reachable.finish)

lemma orderly_generateFirstStep:
  assumes "orderly st pending"
  shows "orderly (snd (generateFirstStep u llm st)) pending"
proof (cases "startFirstStep u st")
  case (Inl e)
  with assms show ?thesis by (simp add: generateFirstStep_def)
next
  case (Inr T)
  with assms have "orderly st ((u, T) # pending)" by (rule orderly.start)
  then have "orderly (snd (finishFirstStep (llm (createFirstStepPrompt T)) u T st))
               (remove1 (u, T) ((u, T) # pending))"
    by (rule orderly.finish) simp
  with Inr show ?thesis by (simp add: generateFirstStep_def)
qed

lemma orderly_focusWithSuggestion: "orderly focusWithSuggestion []"
  unfolding focusWithSuggestion_def
  by (intro orderly_generateFirstStep orderly.setTask orderly.initial) simp

lemma startFirstStep_vagueTask:
  "startFirstStep user1 (setCurrentTask user1 vagueTask new_Focus) = Inr vagueTask"
  by (simp add: startFirstStep_def getCurrentTask_def setCurrentTask_def)

lemma reachable_focusAfterOverlap: "reachable focusAfterOverlap []"
proof -
  have "reachable (setCurrentTask user1 vagueTask new_Focus) []"
    by (intro reachable.setTask reachable.initial)
  then have "reachable (setCurrentTask user1 vagueTask new_Focus) [(user1, vagueTask)]"
    using startFirstStep_vagueTask by (rule reachable.start)
  then have "reachable (setCurrentTask user1 technicalTask
                         (setCurrentTask user1 vagueTask new_Focus)) [(user1, vagueTask)]"
    by (rule reachable.setTask)
  then have "reachable focusAfterOverlap (remove1 (user1, vagueTask) [(user1, vagueTask)])"
    unfolding focusAfterOverlap_def by (rule reachable.finish) simp
  then show ?thesis by simp
qed

lemma focusWithSuggestion_suggestion:
  "suggestions focusWithSuggestion (js ''user123'')
   = Some \<lparr>forTask = vagueTask,
           suggestionText = js ''List three main tasks you need to accomplish this week.''\<rparr>"
  by code_simp

lemma focusAfterOverlap_suggestion:
  "suggestions focusAfterOverlap (js ''user123'')
   = Some \<lparr>forTask = vagueTask, suggestionText = js ''Open the file.''\<rparr>"
  by code_simp

text \<open>The state after the overlap is not among them.\<close>

lemma not_orderly_focusAfterOverlap: "\<not> orderly focusAfterOverlap pending"
proof
  assume "orderly focusAfterOverlap pending"
  then have "currentTasks focusAfterOverlap (js ''user123'')
             = Some (forTask \<lparr>forTask = vagueTask, suggestionText = js ''Open the file.''\<rparr>)"
    using focusAfterOverlap_suggestion by (rule orderly_suggestion_task)
  moreover have "currentTasks focusAfterOverlap (js ''user123'') = Some technicalTask"
    by code_simp
  moreover have "vagueTask \<noteq> technicalTask" by code_simp
  ultimately show False by simp
qed

text \<open>
  C2, as the class has it. \<open>generateFirstStep\<close> takes the user and the client, and no task:
  it works on the current task of the user. With no current task it throws the error whose
  message says so; with one it goes on to the client and to \<open>parseAndStoreSuggestion\<close> for
  that task, and never throws that error.
\<close>

theorem generateFirstStep_requires_current_task:
  "(getCurrentTask u st = None
      \<longrightarrow> generateFirstStep u llm st = (Inl (NoCurrentTask (id' u)), st))
   \<and> (\<forall>T. getCurrentTask u st = Some T \<longrightarrow>
          generateFirstStep u llm st =
            (case llm (createFirstStepPrompt T) of
               Inl m \<Rightarrow> (Inl (LLMError m), st)
             | Inr raw \<Rightarrow> parseAndStoreSuggestion raw u T st))
   \<and> (\<forall>uid. fst (generateFirstStep u llm st) = Inl (NoCurrentTask uid)
          \<longrightarrow> getCurrentTask u st = None)
   \<and> message (NoCurrentTask (id' u))
       = Some (js ''Cannot generate first step for user '' @ id' u
               @ js '': no current task is set.'')"
proof -
  have a: "getCurrentTask u st = None
      \<longrightarrow> generateFirstStep u llm st = (Inl (NoCurrentTask (id' u)), st)"
    by (simp add: generateFirstStep_def startFirstStep_def)
  have b: "\<forall>T. getCurrentTask u st = Some T \<longrightarrow>
          generateFirstStep u llm st =
            (case llm (createFirstStepPrompt T) of
               Inl m \<Rightarrow> (Inl (LLMError m), st)
             | Inr raw \<Rightarrow> parseAndStoreSuggestion raw u T st)"
    by (simp add: generateFirstStep_def startFirstStep_def finishFirstStep_def)
  have c: "\<forall>uid. fst (generateFirstStep u llm st) = Inl (NoCurrentTask uid)
          \<longrightarrow> getCurrentTask u st = None"
    by (cases rule: generateFirstStep_cases [where u = u and llm = llm and st = st])
       (auto simp: parseAndStoreSuggestion_no_precondition_error)
  have d: "message (NoCurrentTask (id' u))
       = Some (js ''Cannot generate first step for user '' @ id' u
               @ js '': no current task is set.'')"
    by simp
  from a b c d show ?thesis by blast
qed

theorem generateFirstStep_requires_current_task_witness:
  \<open>getCurrentTask user1 new_Focus = None
   \<and> generateFirstStep user1 (replyWith (js ''{"suggestion": "Open the file."}'')) new_Focus
       = (Inl (NoCurrentTask (js ''user123'')), new_Focus)
   \<and> getCurrentTask user1 (setCurrentTask user1 vagueTask new_Focus) = Some vagueTask
   \<and> generateFirstStep user1 (failWith (js ''quota'')) (setCurrentTask user1 vagueTask new_Focus)
       = (Inl (LLMError (js ''quota'')), setCurrentTask user1 vagueTask new_Focus)\<close>
proof -
  have n: "getCurrentTask user1 new_Focus = None" by code_simp
  have s: "getCurrentTask user1 (setCurrentTask user1 vagueTask new_Focus) = Some vagueTask"
    by code_simp
  have i: "id' user1 = js ''user123''" by code_simp
  have f: "failWith (js ''quota'') (createFirstStepPrompt vagueTask) = Inl (js ''quota'')"
    by (simp add: failWith_def)
  have a: \<open>generateFirstStep user1 (replyWith (js ''{"suggestion": "Open the file."}'')) new_Focus
       = (Inl (NoCurrentTask (js ''user123'')), new_Focus)\<close>
  proof -
    from generateFirstStep_requires_current_task
            [of user1 new_Focus \<open>replyWith (js ''{"suggestion": "Open the file."}'')\<close>] n
    have \<open>generateFirstStep user1 (replyWith (js ''{"suggestion": "Open the file."}'')) new_Focus
          = (Inl (NoCurrentTask (id' user1)), new_Focus)\<close>
      by blast
    then show ?thesis by (simp only: i)
  qed
  have b: "generateFirstStep user1 (failWith (js ''quota'')) (setCurrentTask user1 vagueTask new_Focus)
       = (Inl (LLMError (js ''quota'')), setCurrentTask user1 vagueTask new_Focus)"
  proof -
    from generateFirstStep_requires_current_task
            [of user1 "setCurrentTask user1 vagueTask new_Focus" "failWith (js ''quota'')"] s
    have "generateFirstStep user1 (failWith (js ''quota'')) (setCurrentTask user1 vagueTask new_Focus)
          = (case failWith (js ''quota'') (createFirstStepPrompt vagueTask) of
               Inl m \<Rightarrow> (Inl (LLMError m), setCurrentTask user1 vagueTask new_Focus)
             | Inr raw \<Rightarrow> parseAndStoreSuggestion raw user1 vagueTask
                          (setCurrentTask user1 vagueTask new_Focus))"
      by blast
    then show ?thesis by (simp only: f sum.case)
  qed
  from n a s b show ?thesis by blast
qed

text \<open>
  C2 as stated fails: the method has no task argument to compare. With the technical task
  current and a caller who is after the vague task, the call succeeds and stores a
  suggestion for the technical task.
\<close>

theorem generateFirstStep_mismatch_counterexample:
  \<open>vagueTask \<noteq> technicalTask
   \<and> getCurrentTask user1 (setCurrentTask user1 technicalTask new_Focus) = Some technicalTask
   \<and> fst (generateFirstStep user1 (replyWith (js ''{"suggestion": "Open the file."}''))
            (setCurrentTask user1 technicalTask new_Focus)) = Inr ()
   \<and> suggestions (snd (generateFirstStep user1 (replyWith (js ''{"suggestion": "Open the file."}''))
                         (setCurrentTask user1 technicalTask new_Focus))) (js ''user123'')
       = Some \<lparr>forTask = technicalTask, suggestionText = js ''Open the file.''\<rparr>\<close>
  by code_simp

text \<open>
  C3. A run of \<open>generateFirstStep\<close> that ends with an error, whatever the error, leaves the
  state of the class (the current tasks and the suggestions of all users) as it was; so
  does a failing \<open>parseAndStoreSuggestion\<close>, and so does the part of a call after its
  \<open>await\<close>, on the state the class has then.
\<close>

theorem generateFirstStep_failure_keeps_state:
  "(fst (generateFirstStep u llm st) = Inl e \<longrightarrow> snd (generateFirstStep u llm st) = st)
   \<and> (fst (parseAndStoreSuggestion raw u T st) = Inl e
        \<longrightarrow> snd (parseAndStoreSuggestion raw u T st) = st)
   \<and> (fst (finishFirstStep answer u T st) = Inl e
        \<longrightarrow> snd (finishFirstStep answer u T st) = st)"
  using generateFirstStep_failure parseAndStoreSuggestion_failure finishFirstStep_failure
  by blast

theorem generateFirstStep_failure_keeps_state_witness:
  \<open>fst (generateFirstStep user1 (replyWith (js ''{"suggestion": "Think about what you want to accomplish."}''))
          focusWithSuggestion)
     = Inl (NotActionable (js ''Think about what you want to accomplish.''))
   \<and> snd (generateFirstStep user1 (replyWith (js ''{"suggestion": "Think about what you want to accomplish."}''))
          focusWithSuggestion) = focusWithSuggestion
   \<and> fst (generateFirstStep user1 (replyWith (js ''I cannot help with that.'')) focusWithSuggestion)
     = Inl NoJsonObject
   \<and> snd (generateFirstStep user1 (replyWith (js ''I cannot help with that.'')) focusWithSuggestion)
     = focusWithSuggestion
   \<and> fst (generateFirstStep user1 (failWith (js ''quota'')) focusWithSuggestion) = Inl (LLMError (js ''quota''))
   \<and> snd (generateFirstStep user1 (failWith (js ''quota'')) focusWithSuggestion) = focusWithSuggestion
   \<and> fst (generateFirstStep \<lparr>id' = js ''nobody''\<rparr> (failWith (js ''quota'')) focusWithSuggestion)
     = Inl (NoCurrentTask (js ''nobody''))
   \<and> snd (generateFirstStep \<lparr>id' = js ''nobody''\<rparr> (failWith (js ''quota'')) focusWithSuggestion)
     = focusWithSuggestion
   \<and> fst (parseAndStoreSuggestion (js ''{"suggestion": 5}'') user1 vagueTask focusWithSuggestion)
     = Inl InvalidFormat
   \<and> snd (parseAndStoreSuggestion (js ''{"suggestion": 5}'') user1 vagueTask focusWithSuggestion)
     = focusWithSuggestion\<close>
proof -
  note t = generateFirstStep_failure_keeps_state
  have a: \<open>fst (generateFirstStep user1 (replyWith (js ''{"suggestion": "Think about what you want to accomplish."}''))
          focusWithSuggestion)
     = Inl (NotActionable (js ''Think about what you want to accomplish.''))\<close>
    by code_simp
  have b: \<open>fst (generateFirstStep user1 (replyWith (js ''I cannot help with that.'')) focusWithSuggestion)
     = Inl NoJsonObject\<close>
    by code_simp
  have c: \<open>fst (generateFirstStep user1 (failWith (js ''quota'')) focusWithSuggestion)
     = Inl (LLMError (js ''quota''))\<close>
    by code_simp
  have d: \<open>fst (generateFirstStep \<lparr>id' = js ''nobody''\<rparr> (failWith (js ''quota'')) focusWithSuggestion)
     = Inl (NoCurrentTask (js ''nobody''))\<close>
    by code_simp
  have e: \<open>fst (parseAndStoreSuggestion (js ''{"suggestion": 5}'') user1 vagueTask focusWithSuggestion)
     = Inl InvalidFormat\<close>
    by code_simp
  from a b c d e
    t [of user1 \<open>replyWith (js ''{"suggestion": "Think about what you want to accomplish."}'')\<close>
          focusWithSuggestion]
    t [of user1 \<open>replyWith (js ''I cannot help with that.'')\<close> focusWithSuggestion]
    t [of user1 \<open>failWith (js ''quota'')\<close> focusWithSuggestion]
    t [of \<open>\<lparr>id' = js ''nobody''\<rparr>\<close> \<open>failWith (js ''quota'')\<close> focusWithSuggestion]
    t [of user1 _ focusWithSuggestion _ \<open>js ''{"suggestion": 5}''\<close> vagueTask]
  show ?thesis by blast
qed

text \<open>
  C4, as the class has it. After \<open>setCurrentTask(u, T')\<close> and after \<open>clearCurrentTask(u)\<close>
  no suggestion is stored for \<open>u\<close>. In every state reached without setting or clearing the
  task of a user while a call of \<open>generateFirstStep\<close> for that user is suspended at its
  \<open>await\<close>, a stored suggestion of a user is for the task that is that user's current
  task; these are states of the class.
\<close>

theorem suggestion_never_outlives_task:
  "suggestions (setCurrentTask u T' st) (id' u) = None
   \<and> suggestions (clearCurrentTask u st) (id' u) = None
   \<and> (orderly st pending \<and> suggestions st uid = Some s
        \<longrightarrow> currentTasks st uid = Some (forTask s))
   \<and> (orderly st pending \<longrightarrow> reachable st pending)"
  using orderly_suggestion_task orderly_reachable
  by (auto simp: setCurrentTask_def clearCurrentTask_def)

theorem suggestion_never_outlives_task_witness:
  "orderly focusWithSuggestion []
   \<and> reachable focusWithSuggestion []
   \<and> suggestions focusWithSuggestion (js ''user123'')
       = Some \<lparr>forTask = vagueTask,
               suggestionText = js ''List three main tasks you need to accomplish this week.''\<rparr>
   \<and> currentTasks focusWithSuggestion (js ''user123'') = Some vagueTask
   \<and> suggestions (setCurrentTask user1 technicalTask focusWithSuggestion) (js ''user123'') = None
   \<and> suggestions (clearCurrentTask user1 focusWithSuggestion) (js ''user123'') = None"
proof -
  have i: "id' user1 = js ''user123''" by (simp add: user1_def)
  from suggestion_never_outlives_task
         [of user1 technicalTask focusWithSuggestion "[]" "js ''user123''"
             "\<lparr>forTask = vagueTask,
               suggestionText = js ''List three main tasks you need to accomplish this week.''\<rparr>"]
       orderly_focusWithSuggestion focusWithSuggestion_suggestion i
  show ?thesis by simp
qed

text \<open>
  C4 as stated fails. A call of \<open>generateFirstStep\<close> reads the vague task and waits for the
  client; \<open>setCurrentTask\<close> makes the technical task the current one; the client answers,
  and the call stores its suggestion. The state has a suggestion for the vague task while
  the current task is the technical one.
\<close>

theorem suggestion_outlives_task_counterexample:
  "reachable focusAfterOverlap []
   \<and> suggestions focusAfterOverlap (js ''user123'')
       = Some \<lparr>forTask = vagueTask, suggestionText = js ''Open the file.''\<rparr>
   \<and> currentTasks focusAfterOverlap (js ''user123'') = Some technicalTask
   \<and> vagueTask \<noteq> technicalTask"
proof -
  have c: "currentTasks focusAfterOverlap (js ''user123'') = Some technicalTask"
    by code_simp
  have d: "vagueTask \<noteq> technicalTask" by code_simp
  from reachable_focusAfterOverlap focusAfterOverlap_suggestion c d show ?thesis by blast
qed

text \<open>
  C5. In every state the class reaches, calls that overlap included, the text of a stored
  suggestion passes the Actionable, the Bounded-scope and the Single-sentence validator.
  A suggestion is a task and a text and nothing else: the record has no field for a
  pending or unvalidated one.
\<close>

theorem stored_suggestion_is_validated:
  "reachable st pending \<and> suggestions st uid = Some s \<longrightarrow>
     validateIsActionable (suggestionText s) = Inr ()
     \<and> validateIsShort (suggestionText s) = Inr ()
     \<and> validateIsSingleSentence (suggestionText s) = Inr ()"
  using reachable_suggestion_valid runValidators_ok by blast

theorem stored_suggestion_is_validated_witness:
  "reachable focusAfterOverlap []
   \<and> suggestions focusAfterOverlap (js ''user123'')
       = Some \<lparr>forTask = vagueTask, suggestionText = js ''Open the file.''\<rparr>
   \<and> validateIsActionable (js ''Open the file.'') = Inr ()
   \<and> validateIsShort (js ''Open the file.'') = Inr ()
   \<and> validateIsSingleSentence (js ''Open the file.'') = Inr ()"
  using stored_suggestion_is_validated
          [of focusAfterOverlap "[]" "js ''user123''"
              "\<lparr>forTask = vagueTask, suggestionText = js ''Open the file.''\<rparr>"]
        reachable_focusAfterOverlap focusAfterOverlap_suggestion
  by simp

section \<open>Properties of the task operations\<close>

text \<open>
  C10. For every user \<open>u\<close> and every task \<open>T\<close>, \<open>setCurrentTask(u, T)\<close> followed by
  \<open>getCurrentTask(u)\<close> returns \<open>T\<close>, from any state of the class.
\<close>

theorem setCurrentTask_then_getCurrentTask:
  "getCurrentTask u (setCurrentTask u T st) = Some T"
  by (simp add: getCurrentTask_def setCurrentTask_def)

end
